theory Spec2Isabelle
  imports Complex_Main "HOL-Library.Multiset"
begin

section \<open>JavaScript numbers\<close>

text \<open>
  The program computes with JavaScript numbers, the binary64 values of IEEE 754. A finite
  number is modelled by the real it denotes; the negative zero is a value of its own
  (\<open>NZero\<close>, while \<open>Fin 0\<close> is \<open>+0\<close>), and the two infinities and \<open>NaN\<close> are kept. Not
  every real is a double: the numbers of the program are the four special values and the
  values \<open>Fin x\<close> where \<open>x\<close> is a double (\<open>is_double\<close> below).
\<close>

datatype jsnum = Fin real | NZero | PInf | NInf | NaN

subsection \<open>Rounding\<close>

text \<open>
  An arithmetic operation yields its exact result rounded to the nearest double, ties to
  the even significand. \<open>expo x\<close> is the binary exponent of \<open>x\<close>, not below \<open>-1022\<close> (where
  the subnormal numbers begin); a significand has 53 bits, so two neighbouring doubles
  around \<open>x\<close> are \<open>ulp x\<close> apart and \<open>round_mag x\<close> is the multiple of \<open>ulp x\<close> nearest to a
  magnitude \<open>x\<close>. \<open>rnd\<close> rounds a real: a magnitude that rounds to \<open>2 ^ 1024\<close> or more
  overflows to the infinity of its sign, and one that rounds to 0 gives the zero of its
  sign. A real is a double when rounding leaves it as it is.
\<close>

definition pow2 :: "int \<Rightarrow> real" where
  "pow2 k = 2 powi k"

definition expo :: "real \<Rightarrow> int" where
  "expo x = max \<lfloor>log 2 \<bar>x\<bar>\<rfloor> (- 1022)"

definition ulp :: "real \<Rightarrow> real" where
  "ulp x = pow2 (expo x - 52)"

definition round_half_even :: "real \<Rightarrow> int" where
  "round_half_even y =
     (let f = \<lfloor>y\<rfloor>; r = y - of_int f
      in if r < 1 / 2 then f else if 1 / 2 < r then f + 1 else if even f then f else f + 1)"

definition round_mag :: "real \<Rightarrow> real" where
  "round_mag x = of_int (round_half_even (x / ulp x)) * ulp x"

definition rnd :: "real \<Rightarrow> jsnum" where
  "rnd x =
     (if x = 0 then Fin 0
      else let m = round_mag \<bar>x\<bar>
           in if 2 ^ 1024 \<le> m then (if 0 < x then PInf else NInf)
              else if m = 0 then (if 0 < x then Fin 0 else NZero)
              else Fin (if 0 < x then m else - m))"

definition is_double :: "real \<Rightarrow> bool" where
  "is_double x = (rnd x = Fin x)"

text \<open>A decimal literal of the source denotes the double nearest to it.\<close>

definition lit :: "real \<Rightarrow> jsnum" where
  "lit x = rnd x"

subsection \<open>Arithmetic\<close>

text \<open>
  The value of a finite number, finiteness, and the sign bit (set for \<open>-0\<close>); the zero
  and the infinity of a given sign.
\<close>

fun val :: "jsnum \<Rightarrow> real" where
  "val (Fin x) = x"
| "val _ = 0"

fun is_fin :: "jsnum \<Rightarrow> bool" where
  "is_fin (Fin x) = True"
| "is_fin NZero = True"
| "is_fin _ = False"

fun negative :: "jsnum \<Rightarrow> bool" where
  "negative (Fin x) = (x < 0)"
| "negative NZero = True"
| "negative NInf = True"
| "negative _ = False"

definition is_zero :: "jsnum \<Rightarrow> bool" where
  "is_zero a = (is_fin a \<and> val a = 0)"

definition is_inf :: "jsnum \<Rightarrow> bool" where
  "is_inf a = (a = PInf \<or> a = NInf)"

definition signed_zero :: "bool \<Rightarrow> jsnum" where
  "signed_zero neg = (if neg then NZero else Fin 0)"

definition signed_inf :: "bool \<Rightarrow> jsnum" where
  "signed_inf neg = (if neg then NInf else PInf)"

text \<open>
  Unary minus and the operators \<open>+\<close>, \<open>-\<close>, \<open>*\<close> and \<open>/\<close>. No operation on numbers throws.
  An exact sum 0 is \<open>-0\<close> only when both summands are \<open>-0\<close>; the sign of a product or
  quotient is the exclusive or of the signs of its operands; a division of a number
  other than 0 by a zero yields an infinity, and \<open>0 / 0\<close>, \<open>Infinity / Infinity\<close>,
  \<open>0 * Infinity\<close> and \<open>Infinity - Infinity\<close> yield \<open>NaN\<close>.
\<close>

fun js_neg :: "jsnum \<Rightarrow> jsnum" where
  "js_neg (Fin x) = (if x = 0 then NZero else Fin (- x))"
| "js_neg NZero = Fin 0"
| "js_neg PInf = NInf"
| "js_neg NInf = PInf"
| "js_neg NaN = NaN"

definition js_add :: "jsnum \<Rightarrow> jsnum \<Rightarrow> jsnum" where
  "js_add a b =
     (if a = NaN \<or> b = NaN then NaN
      else if a = PInf then (if b = NInf then NaN else PInf)
      else if a = NInf then (if b = PInf then NaN else NInf)
      else if is_inf b then b
      else let s = val a + val b
           in if s = 0 then signed_zero (a = NZero \<and> b = NZero) else rnd s)"

definition js_sub :: "jsnum \<Rightarrow> jsnum \<Rightarrow> jsnum" where
  "js_sub a b = js_add a (js_neg b)"

definition js_mul :: "jsnum \<Rightarrow> jsnum \<Rightarrow> jsnum" where
  "js_mul a b =
     (if a = NaN \<or> b = NaN then NaN
      else if is_inf a \<or> is_inf b
        then (if is_zero a \<or> is_zero b then NaN else signed_inf (negative a \<noteq> negative b))
      else let p = val a * val b
           in if p = 0 then signed_zero (negative a \<noteq> negative b) else rnd p)"

definition js_div :: "jsnum \<Rightarrow> jsnum \<Rightarrow> jsnum" where
  "js_div a b =
     (if a = NaN \<or> b = NaN then NaN
      else if is_inf a then (if is_inf b then NaN else signed_inf (negative a \<noteq> negative b))
      else if is_inf b then signed_zero (negative a \<noteq> negative b)
      else if is_zero b
        then (if is_zero a then NaN else signed_inf (negative a \<noteq> negative b))
      else if is_zero a then signed_zero (negative a \<noteq> negative b)
      else rnd (val a / val b))"

text \<open>
  The comparison \<open>a < b\<close> of JavaScript: false as soon as one side is \<open>NaN\<close>, and \<open>-0\<close> is
  not below \<open>+0\<close>.
\<close>

definition js_lt :: "jsnum \<Rightarrow> jsnum \<Rightarrow> bool" where
  "js_lt a b =
     (a \<noteq> NaN \<and> b \<noteq> NaN \<and>
      (if a = NInf then b \<noteq> NInf
       else if a = PInf then False
       else if b = PInf then True
       else if b = NInf then False
       else val a < val b))"

text \<open>
  \<open>Math.min\<close> and \<open>Math.max\<close> of two arguments return \<open>NaN\<close> as soon as one argument is
  \<open>NaN\<close>, and take \<open>-0\<close> to be smaller than \<open>+0\<close>.
\<close>

definition Math_min :: "jsnum \<Rightarrow> jsnum \<Rightarrow> jsnum" where
  "Math_min a b =
     (if a = NaN \<or> b = NaN then NaN
      else if js_lt b a then b
      else if js_lt a b then a
      else if negative b then b else a)"

definition Math_max :: "jsnum \<Rightarrow> jsnum \<Rightarrow> jsnum" where
  "Math_max a b =
     (if a = NaN \<or> b = NaN then NaN
      else if js_lt a b then b
      else if js_lt b a then a
      else if negative a then b else a)"

fun Math_abs :: "jsnum \<Rightarrow> jsnum" where
  "Math_abs (Fin x) = Fin \<bar>x\<bar>"
| "Math_abs NZero = Fin 0"
| "Math_abs PInf = PInf"
| "Math_abs NInf = PInf"
| "Math_abs NaN = NaN"

text \<open>
  The finite numbers of JavaScript, and the finite numbers between two bounds.
\<close>

definition is_number :: "jsnum \<Rightarrow> bool" where
  "is_number a = (is_fin a \<and> is_double (val a))"

definition in_range :: "jsnum \<Rightarrow> real \<Rightarrow> real \<Rightarrow> bool" where
  "in_range a lo hi = (is_fin a \<and> lo \<le> val a \<and> val a \<le> hi)"

section \<open>Skin weights: \<open>smoothstep\<close>\<close>

text \<open>
  \<^verbatim>\<open>function smoothstep(edge0, edge1, x) {
    const t = Math.max(0, Math.min(1, (x - edge0) / (edge1 - edge0)));
    const r = t * t * (3 - 2 * t);
    return Math.max(0, Math.min(1, r)); }\<close>
  \<open>smoothstep_t\<close> is the local \<open>t\<close> of the function.
\<close>

definition smoothstep_t :: "jsnum \<Rightarrow> jsnum \<Rightarrow> jsnum \<Rightarrow> jsnum" where
  "smoothstep_t edge0 edge1 x =
     Math_max (Fin 0) (Math_min (Fin 1) (js_div (js_sub x edge0) (js_sub edge1 edge0)))"

definition smoothstep :: "jsnum \<Rightarrow> jsnum \<Rightarrow> jsnum \<Rightarrow> jsnum" where
  "smoothstep edge0 edge1 x =
     (let t = smoothstep_t edge0 edge1 x;
          r = js_mul (js_mul t t) (js_sub (Fin 3) (js_mul (Fin 2) t))
      in Math_max (Fin 0) (Math_min (Fin 1) r))"

text \<open>
  The statement \<^verbatim>\<open>skinWeights.push(1 - weight, weight, 0, 0)\<close> of \<open>createArm\<close> and
  \<open>createBody\<close>: the four weight slots of one vertex, appended to the array.
\<close>

definition push_weights :: "jsnum list \<Rightarrow> jsnum \<Rightarrow> jsnum list" where
  "push_weights skinWeights weight =
     skinWeights @ [js_sub (Fin 1) weight, weight, Fin 0, Fin 0]"

text \<open>
  The weight loops of \<open>createArm\<close>, \<open>createLeg\<close> and \<open>createBody\<close>, over the vertex
  coordinate the loop reads (\<open>position.getX(i)\<close>, \<open>position.getY(i)\<close>). \<open>direction\<close> is 1
  for the left arm and -1 for the right one. \<open>createLeg\<close> stores the pair in the other
  order: \<^verbatim>\<open>skinWeights.push(weight, 1 - weight, 0, 0)\<close>.
\<close>

definition createArm_skinWeights :: "jsnum \<Rightarrow> jsnum list \<Rightarrow> jsnum list" where
  "createArm_skinWeights direction positionX =
     fold (\<lambda>px skinWeights.
        let x = js_mul px direction;
            centerX = lit (- 0.2);
            threshold = lit 0.2;
            edge0 = js_sub centerX threshold;
            edge1 = js_add centerX threshold;
            weight = smoothstep edge0 edge1 x
        in push_weights skinWeights weight) positionX []"

definition createLeg_skinWeights :: "jsnum list \<Rightarrow> jsnum list" where
  "createLeg_skinWeights positionY =
     fold (\<lambda>y skinWeights.
        let threshold = lit 0.15;
            centerY = lit 0.25;
            edge0 = js_sub centerY threshold;
            edge1 = js_add centerY threshold;
            weight = smoothstep edge0 edge1 y
        in skinWeights @ [weight, js_sub (Fin 1) weight, Fin 0, Fin 0]) positionY []"

definition createBody_skinWeights :: "jsnum list \<Rightarrow> jsnum list" where
  "createBody_skinWeights positionY =
     fold (\<lambda>y skinWeights.
        let bodyHeight = lit 0.8;
            bodyOffsetY = lit (- 0.5);
            edge0 = bodyOffsetY;
            edge1 = js_add bodyOffsetY (js_mul bodyHeight (lit 0.1));
            edge2 = js_add bodyOffsetY (js_mul bodyHeight (lit 0.4));
            edge3 = js_add bodyOffsetY (js_mul bodyHeight (lit 0.8));
            edge4 = js_add bodyOffsetY bodyHeight
        in if js_lt y edge1 then push_weights skinWeights (smoothstep edge0 edge1 y)
           else if js_lt y edge2 then push_weights skinWeights (smoothstep edge1 edge2 y)
           else if js_lt y edge3 then push_weights skinWeights (smoothstep edge2 edge3 y)
           else push_weights skinWeights (smoothstep edge3 edge4 y)) positionY []"

section \<open>Skeleton: \<open>addBone\<close>\<close>

text \<open>
  \<^verbatim>\<open>const bones: THREE.Bone[] = [];
  function addBone(bone) { const idx = bones.length; bones.push(bone); return idx; }\<close>
  The global array is passed in and returned. A bone is its name and local offset; the
  function reads neither.
\<close>

record bone =
  bone_name :: string
  bone_position :: "jsnum \<times> jsnum \<times> jsnum"

definition addBone :: "bone list \<Rightarrow> bone \<Rightarrow> nat \<times> bone list" where
  "addBone bones b = (let idx = length bones in (idx, bones @ [b]))"

text \<open>
  A sequence of additions, as the \<open>create...\<close> functions perform one after another: the
  indices that the calls return, in order, and the final array.
\<close>

fun addBones :: "bone list \<Rightarrow> bone list \<Rightarrow> nat list \<times> bone list" where
  "addBones bones [] = ([], bones)"
| "addBones bones (b # bs) =
     (let (idx, bones1) = addBone bones b;
          (idxs, bones2) = addBones bones1 bs
      in (idx # idxs, bones2))"

section \<open>Part tree and scene composition: \<open>Part.build\<close>\<close>

text \<open>
  A \<open>Part\<close> has a name, a geometry, a material, a position and children. The scene
  objects that \<open>build\<close> creates are three.js objects: each has a kind, a name and
  children. \<open>build\<close> makes one \<open>Group\<close> per part, named after the part, whose first
  child is the part's mesh, \<^emph>\<open>also\<close> named after the part
  (\<^verbatim>\<open>mesh.name = this.name; group.name = this.name; group.add(mesh)\<close>), followed by the
  groups of the part's children. With \<open>enableBone = true\<close> the mesh is a \<open>SkinnedMesh\<close>
  and is pushed on the \<open>meshes\<close> array.
\<close>

datatype ('g, 'm, 'v) part =
  Part (part_name: string) (part_geometry: 'g) (part_material: 'm) (part_position: 'v)
       (part_children: "('g, 'm, 'v) part list")

datatype kind = GroupK | MeshK | SkinnedMeshK | BoneK

datatype object3d = Object3D (obj_kind: kind) (obj_name: string) (obj_children: "object3d list")

definition enableBone :: bool where
  "enableBone = True"

definition add :: "object3d \<Rightarrow> object3d \<Rightarrow> object3d" where
  "add parent child = Object3D (obj_kind parent) (obj_name parent) (obj_children parent @ [child])"

fun build :: "('g, 'm, 'v) part \<Rightarrow> object3d list \<Rightarrow> object3d \<times> object3d list"
  and build_children ::
    "('g, 'm, 'v) part list \<Rightarrow> object3d \<Rightarrow> object3d list \<Rightarrow> object3d \<times> object3d list"
where
  "build (Part n g m p cs) meshes =
     (let mesh = Object3D (if enableBone then SkinnedMeshK else MeshK) n [];
          meshes1 = (if enableBone then meshes @ [mesh] else meshes);
          grp = add (Object3D GroupK n []) mesh
      in build_children cs grp meshes1)"
| "build_children [] grp meshes = (grp, meshes)"
| "build_children (child # cs) grp meshes =
     (let (childGroup, meshes1) = build child meshes
      in build_children cs (add grp childGroup) meshes1)"

text \<open>
  The exporter (three.js \<open>GLTFExporter\<close>, not part of this repository) writes one node per
  scene object, a parent after its children, each with the object's name. The claims
  about the node list do not depend on this order.
\<close>

fun scene_nodes :: "object3d \<Rightarrow> object3d list" where
  "scene_nodes (Object3D k n cs) = concat (map scene_nodes cs) @ [Object3D k n cs]"

definition node_names :: "object3d \<Rightarrow> string list" where
  "node_names obj = map obj_name (scene_nodes obj)"

text \<open>
  The part tree and the bone tree that the top level of the program assembles
  (\<open>body.part.add(head.part)\<close>, \<open>body.neckBone.add(head.bone)\<close>, ...), and the scene it
  exports: \<^verbatim>\<open>const model = body.part.build(meshes); model.add(body.hipsBone)\<close>.
\<close>

definition leaf_part :: "string \<Rightarrow> (unit, unit, unit) part list \<Rightarrow> (unit, unit, unit) part" where
  "leaf_part n cs = Part n () () () cs"

definition program_parts :: "(unit, unit, unit) part" where
  "program_parts =
     leaf_part ''body''
       [leaf_part ''head'' [],
        leaf_part ''leftArm'' [leaf_part ''leftHand'' []],
        leaf_part ''rightArm'' [leaf_part ''rightHand'' []],
        leaf_part ''leftLeg'' [leaf_part ''leftFoot'' []],
        leaf_part ''rightLeg'' [leaf_part ''rightFoot'' []]]"

definition bone_obj :: "string \<Rightarrow> object3d list \<Rightarrow> object3d" where
  "bone_obj n cs = Object3D BoneK n cs"

definition arm_bones :: "string \<Rightarrow> object3d" where
  "arm_bones namePrefix =
     bone_obj (namePrefix @ ''Shoulder'')
       [bone_obj (namePrefix @ ''UpperArm'')
          [bone_obj (namePrefix @ ''LowerArm'') [bone_obj (namePrefix @ ''Hand'') []]]]"

definition leg_bones :: "string \<Rightarrow> object3d" where
  "leg_bones namePrefix =
     bone_obj (namePrefix @ ''UpperLeg'')
       [bone_obj (namePrefix @ ''LowerLeg'') [bone_obj (namePrefix @ ''Foot'') []]]"

definition program_hipsBone :: object3d where
  "program_hipsBone =
     bone_obj ''hips''
       [bone_obj ''spine''
          [bone_obj ''chest''
             [bone_obj ''upperChest''
                [bone_obj ''neck'' [bone_obj ''head'' []],
                 arm_bones ''left'',
                 arm_bones ''right'']]],
        leg_bones ''left'',
        leg_bones ''right'']"

definition program_model :: object3d where
  "program_model = add (fst (build program_parts [])) program_hipsBone"

section \<open>Head: vertex regions and face groups (\<open>createHead\<close>)\<close>

subsection \<open>Vertex classification\<close>

text \<open>
  The loop over \<open>i < pos.count\<close> that fills \<open>mouthVertexIndices\<close>, \<open>leftEyeVertexIndices\<close>
  and \<open>rightEyeVertexIndices\<close> with an \<open>if / else if / else if\<close> chain. \<open>pos\<close> holds one
  \<open>(x, y, z)\<close> per vertex and \<open>uv\<close> one \<open>(u, v)\<close>; a read of \<open>uv\<close> past its end gives
  \<open>undefined\<close>, which the comparisons treat as \<open>NaN\<close>.
\<close>

record vertex_indices =
  mouthVertexIndices :: "nat list"
  leftEyeVertexIndices :: "nat list"
  rightEyeVertexIndices :: "nat list"

definition uv_get :: "(jsnum \<times> jsnum) list \<Rightarrow> nat \<Rightarrow> jsnum \<times> jsnum" where
  "uv_get uv i = (if i < length uv then uv ! i else (NaN, NaN))"

definition in_mouth :: "jsnum \<times> jsnum \<times> jsnum \<Rightarrow> bool" where
  "in_mouth p = (case p of (x, y, z) \<Rightarrow>
     js_lt y (lit (- 0.1)) \<and> js_lt (lit (- 0.3)) y \<and> js_lt (lit 0.1) z \<and>
     js_lt (Math_abs x) (lit 0.15))"

definition in_left_eye :: "jsnum \<times> jsnum \<Rightarrow> bool" where
  "in_left_eye t = (case t of (u, v) \<Rightarrow>
     js_lt (lit 0.4) u \<and> js_lt u (lit 0.5) \<and> js_lt (lit 0.05) v \<and> js_lt v (lit 0.1))"

definition in_right_eye :: "jsnum \<times> jsnum \<Rightarrow> bool" where
  "in_right_eye t = (case t of (u, v) \<Rightarrow>
     js_lt (lit 0.5) u \<and> js_lt u (lit 0.6) \<and> js_lt (lit 0.05) v \<and> js_lt v (lit 0.1))"

definition classify_step ::
  "(jsnum \<times> jsnum \<times> jsnum) list \<Rightarrow> (jsnum \<times> jsnum) list \<Rightarrow> nat \<Rightarrow>
   vertex_indices \<Rightarrow> vertex_indices" where
  "classify_step pos uv i s =
     (if in_mouth (pos ! i) then s\<lparr>mouthVertexIndices := mouthVertexIndices s @ [i]\<rparr>
      else if in_left_eye (uv_get uv i)
        then s\<lparr>leftEyeVertexIndices := leftEyeVertexIndices s @ [i]\<rparr>
      else if in_right_eye (uv_get uv i)
        then s\<lparr>rightEyeVertexIndices := rightEyeVertexIndices s @ [i]\<rparr>
      else s)"

definition classifyVertices ::
  "(jsnum \<times> jsnum \<times> jsnum) list \<Rightarrow> (jsnum \<times> jsnum) list \<Rightarrow> vertex_indices" where
  "classifyVertices pos uv =
     fold (classify_step pos uv) [0..<length pos]
       \<lparr>mouthVertexIndices = [], leftEyeVertexIndices = [], rightEyeVertexIndices = []\<rparr>"

subsection \<open>Face groups\<close>

text \<open>
  The index buffer is \<open>geometry.index\<close> (absent for a non-indexed geometry, whose corners
  are then \<open>3f, 3f+1, 3f+2\<close>). \<open>index.getX(k)\<close> reads a typed array: past its end the
  result is \<open>undefined\<close>, here \<open>None\<close>. No vertex list contains \<open>undefined\<close>.
\<close>

definition getX :: "nat list \<Rightarrow> nat \<Rightarrow> nat option" where
  "getX arr k = (if k < length arr then Some (arr ! k) else None)"

definition corner :: "nat list option \<Rightarrow> nat \<Rightarrow> nat option" where
  "corner index k = (case index of Some arr \<Rightarrow> getX arr k | None \<Rightarrow> Some k)"

definition array_includes :: "nat list \<Rightarrow> nat option \<Rightarrow> bool" where
  "array_includes arr i = (case i of None \<Rightarrow> False | Some v \<Rightarrow> List.member arr v)"

text \<open>\<^verbatim>\<open>[i0, i1, i2].filter((i) => vertexIndices.includes(i)).length\<close>\<close>

definition region_count :: "nat list \<Rightarrow> nat option \<Rightarrow> nat option \<Rightarrow> nat option \<Rightarrow> nat" where
  "region_count vertexIndices i0 i1 i2 =
     length (filter (\<lambda>i. array_includes vertexIndices i) [i0, i1, i2])"

text \<open>
  The four arrays a triangle can be pushed on, named by the group constants
  \<open>GROUP_FACE = 0\<close>, \<open>GROUP_MOUTH = 1\<close>, \<open>GROUP_LEFT_EYE = 2\<close>, \<open>GROUP_RIGHT_EYE = 3\<close>
  under which \<open>addGroup\<close> registers them. \<open>triangle_group\<close> is the \<open>if / else if\<close> chain
  that chooses the array.
\<close>

datatype face_group = GROUP_FACE | GROUP_MOUTH | GROUP_LEFT_EYE | GROUP_RIGHT_EYE

fun materialIndex :: "face_group \<Rightarrow> nat" where
  "materialIndex GROUP_FACE = 0"
| "materialIndex GROUP_MOUTH = 1"
| "materialIndex GROUP_LEFT_EYE = 2"
| "materialIndex GROUP_RIGHT_EYE = 3"

definition triangle_group ::
  "vertex_indices \<Rightarrow> nat option \<Rightarrow> nat option \<Rightarrow> nat option \<Rightarrow> face_group" where
  "triangle_group vs i0 i1 i2 =
     (let mouthCount = region_count (mouthVertexIndices vs) i0 i1 i2;
          leftEyeCount = region_count (leftEyeVertexIndices vs) i0 i1 i2;
          rightEyeCount = region_count (rightEyeVertexIndices vs) i0 i1 i2
      in if mouthCount \<ge> 2 then GROUP_MOUTH
         else if leftEyeCount \<ge> 2 then GROUP_LEFT_EYE
         else if rightEyeCount \<ge> 2 then GROUP_RIGHT_EYE
         else GROUP_FACE)"

record face_indices =
  faceIndices :: "nat option list"
  mouthIndices :: "nat option list"
  leftEyeIndices :: "nat option list"
  rightEyeIndices :: "nat option list"

fun push_triangle ::
  "face_group \<Rightarrow> nat option \<Rightarrow> nat option \<Rightarrow> nat option \<Rightarrow> face_indices \<Rightarrow> face_indices" where
  "push_triangle GROUP_MOUTH i0 i1 i2 acc = acc\<lparr>mouthIndices := mouthIndices acc @ [i0, i1, i2]\<rparr>"
| "push_triangle GROUP_LEFT_EYE i0 i1 i2 acc =
     acc\<lparr>leftEyeIndices := leftEyeIndices acc @ [i0, i1, i2]\<rparr>"
| "push_triangle GROUP_RIGHT_EYE i0 i1 i2 acc =
     acc\<lparr>rightEyeIndices := rightEyeIndices acc @ [i0, i1, i2]\<rparr>"
| "push_triangle GROUP_FACE i0 i1 i2 acc = acc\<lparr>faceIndices := faceIndices acc @ [i0, i1, i2]\<rparr>"

definition segment_step ::
  "nat list option \<Rightarrow> vertex_indices \<Rightarrow> nat \<Rightarrow> face_indices \<Rightarrow> face_indices" where
  "segment_step index vs f acc =
     (let i0 = corner index (f * 3);
          i1 = corner index (f * 3 + 1);
          i2 = corner index (f * 3 + 2)
      in push_triangle (triangle_group vs i0 i1 i2) i0 i1 i2 acc)"

text \<open>
  \<^verbatim>\<open>const faceCount = index ? index.count / 3 : geometry.attributes.position.count / 3\<close>
  is a JavaScript division: not an integer when the count is not a multiple of 3. The
  loop \<^verbatim>\<open>for (let f = 0; f < faceCount; f++)\<close> compares with that number.
\<close>

definition faceCount :: "nat list option \<Rightarrow> nat \<Rightarrow> real" where
  "faceCount index positionCount =
     (case index of Some arr \<Rightarrow> real (length arr) / 3 | None \<Rightarrow> real positionCount / 3)"

function segment_loop ::
  "nat list option \<Rightarrow> vertex_indices \<Rightarrow> real \<Rightarrow> nat \<Rightarrow> face_indices \<Rightarrow> face_indices" where
  "segment_loop index vs fc f acc =
     (if real f < fc then segment_loop index vs fc (Suc f) (segment_step index vs f acc)
      else acc)"
  by pat_completeness auto
termination
proof (relation "measure (\<lambda>(index, vs, fc, f, acc). nat \<lceil>fc\<rceil> - f)")
  show "wf (measure (\<lambda>(index, vs, fc, f, acc). nat \<lceil>fc\<rceil> - f))"
    by simp
next
  fix index :: "nat list option" and vs :: vertex_indices and fc :: real and f :: nat
    and acc :: face_indices
  assume "real f < fc"
  then have "f < nat \<lceil>fc\<rceil>"
    by linarith
  then show "((index, vs, fc, Suc f, segment_step index vs f acc), (index, vs, fc, f, acc))
      \<in> measure (\<lambda>(index, vs, fc, f, acc). nat \<lceil>fc\<rceil> - f)"
    by simp
qed

text \<open>
  \<^verbatim>\<open>new Uint32Array([...faceIndices, ...mouthIndices, ...leftEyeIndices, ...rightEyeIndices])\<close>
  converts each element to an unsigned 32-bit integer (\<open>undefined\<close> becomes 0); then four
  \<open>addGroup(start, count, materialIndex)\<close> calls register the ranges.
\<close>

definition to_uint32 :: "nat option \<Rightarrow> nat" where
  "to_uint32 i = (case i of None \<Rightarrow> 0 | Some v \<Rightarrow> v mod 2 ^ 32)"

record geometry_group =
  group_start :: nat
  group_count :: nat
  group_materialIndex :: nat

record head_geometry =
  newIndices :: "nat list"
  groups :: "geometry_group list"

definition addGroup :: "geometry_group list \<Rightarrow> nat \<Rightarrow> nat \<Rightarrow> nat \<Rightarrow> geometry_group list" where
  "addGroup gs start cnt mat =
     gs @ [\<lparr>group_start = start, group_count = cnt, group_materialIndex = mat\<rparr>]"

definition segment_faces ::
  "nat list option \<Rightarrow> nat \<Rightarrow> vertex_indices \<Rightarrow> face_indices" where
  "segment_faces index positionCount vs =
     segment_loop index vs (faceCount index positionCount) 0
       \<lparr>faceIndices = [], mouthIndices = [], leftEyeIndices = [], rightEyeIndices = []\<rparr>"

definition regroup :: "face_indices \<Rightarrow> head_geometry" where
  "regroup fi =
     (let indices = map to_uint32
            (faceIndices fi @ mouthIndices fi @ leftEyeIndices fi @ rightEyeIndices fi);
          indexOffset0 = 0;
          gs1 = addGroup [] indexOffset0 (length (faceIndices fi)) (materialIndex GROUP_FACE);
          indexOffset1 = indexOffset0 + length (faceIndices fi);
          gs2 = addGroup gs1 indexOffset1 (length (mouthIndices fi)) (materialIndex GROUP_MOUTH);
          indexOffset2 = indexOffset1 + length (mouthIndices fi);
          gs3 = addGroup gs2 indexOffset2 (length (leftEyeIndices fi))
                  (materialIndex GROUP_LEFT_EYE);
          indexOffset3 = indexOffset2 + length (leftEyeIndices fi);
          gs4 = addGroup gs3 indexOffset3 (length (rightEyeIndices fi))
                  (materialIndex GROUP_RIGHT_EYE)
      in \<lparr>newIndices = indices, groups = gs4\<rparr>)"

definition createHead_geometry ::
  "nat list option \<Rightarrow> (jsnum \<times> jsnum \<times> jsnum) list \<Rightarrow> (jsnum \<times> jsnum) list \<Rightarrow> head_geometry" where
  "createHead_geometry index pos uv =
     regroup (segment_faces index (length pos) (classifyVertices pos uv))"

section \<open>The exporter plugin (\<open>exporter.register\<close>)\<close>

text \<open>
  \<^verbatim>\<open>const TextureKinds = Object.keys(TextureKind)\<close> and
  \<^verbatim>\<open>TextureKindToIndex = Object.fromEntries(TextureKinds.map((k, i) => [k, i]))\<close>.
\<close>

definition TextureKinds :: "string list" where
  "TextureKinds =
     [''normal'', ''aa'', ''ih'', ''ou'', ''ee'', ''oh'', ''blinkLeft'', ''blinkRight'']"

definition TextureKindToIndex :: "string \<rightharpoonup> nat" where
  "TextureKindToIndex =
     fold (\<lambda>(k, i) m. m(k \<mapsto> i)) (zip TextureKinds [0..<length TextureKinds]) Map.empty"

text \<open>
  \<^verbatim>\<open>TextureKindToIndex[kind] * (1 / TextureKinds.length)\<close>; a missing key would read
  \<open>undefined\<close> and the product would be \<open>NaN\<close>.
\<close>

definition atlas_offset :: "string \<Rightarrow> jsnum" where
  "atlas_offset kind =
     js_mul (case TextureKindToIndex kind of Some i \<Rightarrow> Fin (real i) | None \<Rightarrow> NaN)
            (js_div (Fin 1) (Fin (real (length TextureKinds))))"

text \<open>The names that \<open>createHead\<close> gives the head's mouth and eye materials.\<close>

definition head_mouthMaterial_name :: string where
  "head_mouthMaterial_name = ''headMouthMaterial''"

definition head_leftEyeMaterial_name :: string where
  "head_leftEyeMaterial_name = ''headLeftEyeMaterial''"

definition head_rightEyeMaterial_name :: string where
  "head_rightEyeMaterial_name = ''headRightEyeMaterial''"

text \<open>
  The document under construction (\<open>parser.json\<close>), as far as the plugin reads and writes
  it: the node array (each node with an optional name), the \<open>extensionsUsed\<close> array and
  the \<open>VRMC_vrm\<close> entry of the \<open>extensions\<close> object. A field that JavaScript may find
  \<open>undefined\<close> is an option.
\<close>

record gltf_node =
  node_name :: "string option"

record texture_transform_bind =
  material :: "nat option"
  offset :: "jsnum \<times> jsnum"
  scale :: "jsnum \<times> jsnum"

record expression =
  isBinary :: bool
  overrideBlink :: string
  overrideLookAt :: string
  overrideMouth :: string
  textureTransformBinds :: "texture_transform_bind list"

record vrm_meta =
  meta_name :: string
  meta_version :: string
  authors :: "string list"
  licenseUrl :: string

record vrmc_vrm =
  specVersion :: string
  meta :: vrm_meta
  humanBones :: "(string \<times> nat) list"
  preset :: "(string \<times> expression) list"

record gltf =
  nodes :: "gltf_node list option"
  extensionsUsed :: "string list option"
  extensions_VRMC_vrm :: "vrmc_vrm option"

text \<open>
  The state of one export: the exporter's own \<open>parser.extensionsUsed\<close> object and
  document, the four variables of the plugin's closure, and the warnings written with
  \<open>console.warn\<close>.
\<close>

record exporter =
  parser_extensionsUsed :: "string \<rightharpoonup> bool"
  json :: gltf
  nodeCount :: nat
  meshToNodeIndex :: "string \<rightharpoonup> nat"
  materialCount :: nat
  materialToIndex :: "string \<rightharpoonup> nat"
  console_warn :: "string list"

datatype js_error = TypeError

text \<open>
  \<^verbatim>\<open>writeNode: (obj, _node) => { if (obj instanceof THREE.Mesh)
       meshToNodeIndex.set(obj.name, nodeCount); nodeCount++; }\<close> and
  \<^verbatim>\<open>writeMaterialAsync: async (material) => {
       materialToIndex.set(material.name, materialCount); materialCount++; }\<close>
\<close>

definition writeNode :: "object3d \<Rightarrow> exporter \<Rightarrow> exporter" where
  "writeNode obj st =
     (let st1 = (if obj_kind obj = MeshK \<or> obj_kind obj = SkinnedMeshK
                 then st\<lparr>meshToNodeIndex := (meshToNodeIndex st)(obj_name obj \<mapsto> nodeCount st)\<rparr>
                 else st)
      in st1\<lparr>nodeCount := nodeCount st1 + 1\<rparr>)"

definition writeMaterialAsync :: "string \<Rightarrow> exporter \<Rightarrow> exporter" where
  "writeMaterialAsync material_name st =
     st\<lparr>materialToIndex := (materialToIndex st)(material_name \<mapsto> materialCount st),
        materialCount := materialCount st + 1\<rparr>"

text \<open>
  \<open>afterParse\<close>, first part: \<^verbatim>\<open>gltf.nodes.forEach((node, index) =>
    { if (node.name) nodeNameToIndex.set(node.name, index); })\<close>. An absent or empty name
  is falsy.
\<close>

definition nodeNameToIndex_of :: "gltf_node list \<Rightarrow> (string \<rightharpoonup> nat)" where
  "nodeNameToIndex_of ns =
     fold (\<lambda>(node, index) m.
             case node_name node of
               None \<Rightarrow> m
             | Some n \<Rightarrow> if n \<noteq> [] then m(n \<mapsto> index) else m)
          (zip ns [0..<length ns]) Map.empty"

definition boneNames :: "string list" where
  "boneNames =
     [''hips'', ''spine'', ''chest'', ''upperChest'', ''neck'', ''head'',
      ''leftUpperLeg'', ''leftLowerLeg'', ''leftFoot'',
      ''rightUpperLeg'', ''rightLowerLeg'', ''rightFoot'',
      ''leftShoulder'', ''leftUpperArm'', ''leftLowerArm'', ''leftHand'',
      ''rightShoulder'', ''rightUpperArm'', ''rightLowerArm'', ''rightHand'']"

text \<open>Assignment to a property of a JavaScript object: a new key is added last.\<close>

fun obj_set :: "(string \<times> 'a) list \<Rightarrow> string \<Rightarrow> 'a \<Rightarrow> (string \<times> 'a) list" where
  "obj_set [] k v = [(k, v)]"
| "obj_set ((k', v') # kvs) k v =
     (if k' = k then (k, v) # kvs else (k', v') # obj_set kvs k v)"

definition bone_warning :: "string \<Rightarrow> string" where
  "bone_warning boneName =
     ''Bone '' @ [CHR 0x22] @ boneName @ [CHR 0x22] @ '' not found in the scene.''"

text \<open>
  \<^verbatim>\<open>boneNames.forEach((boneName) => {
     const nodeIndex = nodeNameToIndex.get(boneName);
     if (nodeIndex !== undefined) humanBones[boneName] = { node: nodeIndex };
     else console.warn(`Bone "${boneName}" not found in the scene.`); })\<close>
  The state of the loop is \<open>humanBones\<close> and the console.
\<close>

definition humanBones_step ::
  "(string \<rightharpoonup> nat) \<Rightarrow> string \<Rightarrow> (string \<times> nat) list \<times> string list \<Rightarrow>
   (string \<times> nat) list \<times> string list" where
  "humanBones_step nodeNameToIndex boneName s =
     (case nodeNameToIndex boneName of
        Some nodeIndex \<Rightarrow> (obj_set (fst s) boneName nodeIndex, snd s)
      | None \<Rightarrow> (fst s, snd s @ [bone_warning boneName]))"

definition humanBones_loop ::
  "(string \<rightharpoonup> nat) \<Rightarrow> string list \<Rightarrow> (string \<times> nat) list \<times> string list" where
  "humanBones_loop nodeNameToIndex warns =
     fold (humanBones_step nodeNameToIndex) boneNames ([], warns)"

text \<open>The expression presets, each with its \<open>textureTransformBinds\<close>.\<close>

definition bind :: "(string \<rightharpoonup> nat) \<Rightarrow> string \<Rightarrow> string \<Rightarrow> texture_transform_bind" where
  "bind m2i material_name kind =
     \<lparr>material = m2i material_name,
      offset = (Fin 0, atlas_offset kind),
      scale = (Fin 1, Fin 1)\<rparr>"

definition binary_expression :: "texture_transform_bind list \<Rightarrow> expression" where
  "binary_expression binds =
     \<lparr>isBinary = True, overrideBlink = ''none'', overrideLookAt = ''none'',
      overrideMouth = ''none'', textureTransformBinds = binds\<rparr>"

definition presets :: "(string \<rightharpoonup> nat) \<Rightarrow> (string \<times> expression) list" where
  "presets m2i =
     [(''aa'', binary_expression [bind m2i head_mouthMaterial_name ''aa'']),
      (''ih'', binary_expression [bind m2i head_mouthMaterial_name ''ih'']),
      (''ou'', binary_expression [bind m2i head_mouthMaterial_name ''ou'']),
      (''ee'', binary_expression [bind m2i head_mouthMaterial_name ''ee'']),
      (''oh'', binary_expression [bind m2i head_mouthMaterial_name ''oh'']),
      (''blink'', binary_expression
         [bind m2i head_leftEyeMaterial_name ''blinkLeft'',
          bind m2i head_rightEyeMaterial_name ''blinkRight'']),
      (''blinkLeft'', binary_expression
         [bind m2i head_leftEyeMaterial_name ''blinkLeft'']),
      (''blinkRight'', binary_expression
         [bind m2i head_rightEyeMaterial_name ''blinkRight''])]"

text \<open>
  \<open>afterParse\<close>. It has no \<open>throw\<close>; the one operation that can fail is
  \<open>gltf.nodes.forEach\<close> when the document has no node array. The steps, in order:
  \<^verbatim>\<open>parser.extensionsUsed["VRMC_vrm"] = true\<close>, the name map, the \<open>humanBones\<close> loop,
  \<^verbatim>\<open>gltf.extensionsUsed = gltf.extensionsUsed || []; gltf.extensionsUsed.push("VRMC_vrm")\<close>,
  and the assignment of \<open>gltf.extensions.VRMC_vrm\<close>.
\<close>

definition vrm_meta_of_program :: vrm_meta where
  "vrm_meta_of_program =
     \<lparr>meta_name = ''kgtkr'', meta_version = ''1.0'', authors = [''kgtkr''],
      licenseUrl = ''https://vrm.dev/licenses/1.0/''\<rparr>"

definition afterParse :: "exporter \<Rightarrow> js_error + exporter" where
  "afterParse st =
     (let gltf = json st in
      case nodes gltf of
        None \<Rightarrow> Inl TypeError
      | Some ns \<Rightarrow>
          (let nodeNameToIndex = nodeNameToIndex_of ns;
               (hb, warns) = humanBones_loop nodeNameToIndex (console_warn st);
               used = (case extensionsUsed gltf of None \<Rightarrow> [] | Some l \<Rightarrow> l) @ [''VRMC_vrm''];
               ext = \<lparr>specVersion = ''1.0'', meta = vrm_meta_of_program, humanBones = hb,
                      preset = presets (materialToIndex st)\<rparr>
           in Inr (st\<lparr>parser_extensionsUsed := (parser_extensionsUsed st)(''VRMC_vrm'' \<mapsto> True),
                      json := gltf\<lparr>extensionsUsed := Some used,
                                   extensions_VRMC_vrm := Some ext\<rparr>,
                      console_warn := warns\<rparr>)))"

text \<open>Running the hook again on the state it left, as a second registration would.\<close>

definition afterParse_twice :: "exporter \<Rightarrow> js_error + exporter" where
  "afterParse_twice st = (case afterParse st of Inl e \<Rightarrow> Inl e | Inr st1 \<Rightarrow> afterParse st1)"

text \<open>
  The export of a scene up to the hook: one node per scene object, in the exporter's
  order, each reported to \<open>writeNode\<close>; one \<open>writeMaterialAsync\<close> per material.
\<close>

definition initial_exporter :: exporter where
  "initial_exporter =
     \<lparr>parser_extensionsUsed = Map.empty,
      json = \<lparr>nodes = None, extensionsUsed = None, extensions_VRMC_vrm = None\<rparr>,
      nodeCount = 0, meshToNodeIndex = Map.empty,
      materialCount = 0, materialToIndex = Map.empty,
      console_warn = []\<rparr>"

definition export_nodes :: "object3d \<Rightarrow> exporter \<Rightarrow> exporter" where
  "export_nodes scene st =
     (let st1 = fold writeNode (scene_nodes scene) st
      in st1\<lparr>json := (json st1)\<lparr>nodes :=
           Some (map (\<lambda>obj. \<lparr>node_name = (if obj_name obj \<noteq> [] then Some (obj_name obj) else None)\<rparr>)
                  (scene_nodes scene))\<rparr>\<rparr>)"

section \<open>Notions used to state the properties\<close>

text \<open>
  None of the definitions of this section is code of the program: they name what the
  theorems below speak about.
\<close>

subsection \<open>Skin weights\<close>

text \<open>
  A weight of \<open>[0, 1]\<close>, a sum within \<open>1e-6\<close> of 1, and a weight array that holds, for
  every vertex, two weights of \<open>[0, 1]\<close> whose JavaScript sum is within \<open>1e-6\<close> of 1,
  followed by two zeros.
\<close>

fun unit_weight :: "jsnum \<Rightarrow> bool" where
  "unit_weight (Fin w) = (0 \<le> w \<and> w \<le> 1)"
| "unit_weight _ = False"

fun near_one :: "jsnum \<Rightarrow> bool" where
  "near_one (Fin s) = (\<bar>s - 1\<bar> \<le> 1 / 10 ^ 6)"
| "near_one _ = False"

fun weight_quads :: "jsnum list \<Rightarrow> bool" where
  "weight_quads [] = True"
| "weight_quads (a # b # c # d # rest) =
     (unit_weight a \<and> unit_weight b \<and> near_one (js_add a b) \<and> c = Fin 0 \<and> d = Fin 0 \<and>
      weight_quads rest)"
| "weight_quads _ = False"

subsection \<open>Scene\<close>

text \<open>The group that \<open>build\<close> returns, without the \<open>meshes\<close> array, and the parts of a tree.\<close>

fun scene_of :: "('g, 'm, 'v) part \<Rightarrow> object3d" where
  "scene_of (Part n g m p cs) =
     Object3D GroupK n (Object3D SkinnedMeshK n [] # map scene_of cs)"

fun parts_of :: "('g, 'm, 'v) part \<Rightarrow> ('g, 'm, 'v) part list" where
  "parts_of (Part n g m p cs) = Part n g m p cs # concat (map parts_of cs)"

subsection \<open>Head\<close>






text \<open>
  The specification's majority: at least two of the three corners of a triangle carry
  the label of a region, that is, are vertices of the region's list.
\<close>

definition carries :: "nat list \<Rightarrow> nat option \<Rightarrow> bool" where
  "carries vertexIndices i = (case i of None \<Rightarrow> False | Some v \<Rightarrow> v \<in> set vertexIndices)"

definition has_majority :: "nat list \<Rightarrow> nat option \<Rightarrow> nat option \<Rightarrow> nat option \<Rightarrow> bool" where
  "has_majority vertexIndices i0 i1 i2 =
     ((carries vertexIndices i0 \<and> carries vertexIndices i1) \<or>
      (carries vertexIndices i0 \<and> carries vertexIndices i2) \<or>
      (carries vertexIndices i1 \<and> carries vertexIndices i2))"

subsection \<open>Export\<close>

text \<open>
  A name is in the node list when a node carries it and it is not empty. \<open>used_list\<close> is
  the document's \<open>extensionsUsed\<close> array, empty when absent; \<open>bind_materials\<close> lists, for
  each preset, the material indices of its bindings.
\<close>

definition names_in :: "gltf_node list \<Rightarrow> string \<Rightarrow> bool" where
  "names_in ns b = (b \<noteq> [] \<and> Some b \<in> node_name ` set ns)"

definition used_list :: "exporter \<Rightarrow> string list" where
  "used_list st = (case extensionsUsed (json st) of None \<Rightarrow> [] | Some l \<Rightarrow> l)"

definition bind_materials :: "vrmc_vrm \<Rightarrow> (string \<times> nat option list) list" where
  "bind_materials ext =
     map (\<lambda>(n, e). (n, map material (textureTransformBinds e))) (preset ext)"

definition gltf_nodes_of :: "object3d \<Rightarrow> gltf_node list" where
  "gltf_nodes_of scene =
     map (\<lambda>obj. \<lparr>node_name = (if obj_name obj \<noteq> [] then Some (obj_name obj) else None)\<rparr>)
       (scene_nodes scene)"

text \<open>
  The program's export up to the hook. Its thirteen materials are written in mesh order;
  only the four head materials have a name (an unnamed three.js material has the empty
  name). \<open>export_without_mouth_material\<close> is an export in which the mouth material was
  never written.
\<close>

definition program_materials :: "string list" where
  "program_materials =
     [[], ''headFaceMaterial'', ''headMouthMaterial'', ''headLeftEyeMaterial'',
      ''headRightEyeMaterial'', [], [], [], [], [], [], [], []]"

definition program_export :: exporter where
  "program_export =
     fold writeMaterialAsync program_materials (export_nodes program_model initial_exporter)"

definition export_without_mouth_material :: exporter where
  "export_without_mouth_material =
     fold writeMaterialAsync
       [[], ''headFaceMaterial'', ''headLeftEyeMaterial'', ''headRightEyeMaterial'']
       (export_nodes program_model initial_exporter)"

section \<open>Properties of rounding\<close>

text \<open>
  Powers of two, the exponent and the grid of doubles; what \<open>rnd\<close> does to a double, to
  bounds that are doubles, and how far a rounded result is from the exact one.
\<close>

lemma pow2_pos [simp]: "0 < pow2 k"
  by (simp add: pow2_def)

lemma pow2_add: "pow2 (a + b) = pow2 a * pow2 b"
  by (simp add: pow2_def power_int_add)

lemma pow2_diff: "pow2 (a - b) = pow2 a / pow2 b"
  by (simp add: pow2_def power_int_diff)

lemma pow2_le: "a \<le> b \<Longrightarrow> pow2 a \<le> pow2 b"
  by (simp add: pow2_def power_int_increasing)

lemma pow2_less: "a < b \<Longrightarrow> pow2 a < pow2 b"
  by (simp add: pow2_def power_int_strict_increasing)

lemma pow2_nonneg_int: "0 \<le> k \<Longrightarrow> pow2 k = of_int (2 ^ nat k)"
  by (simp add: pow2_def power_int_nonneg_exp)

lemma powr_pow2:
  "2 powr real_of_int k = pow2 k" "2 powr (real_of_int k + 1) = pow2 (k + 1)"
  using powr_real_of_int'[of 2 k] powr_real_of_int'[of 2 "k + 1"]
  by (simp_all add: pow2_def)

lemma pow2_shift53: "pow2 (e + 1) = of_int (2 ^ 53) * pow2 (e - 52)"
proof -
  have "e + 1 = 53 + (e - 52)" by simp
  then have "pow2 (e + 1) = pow2 (53 + (e - 52))" by (rule arg_cong)
  also have "\<dots> = pow2 53 * pow2 (e - 52)" by (rule pow2_add)
  also have "pow2 53 = of_int (2 ^ 53)" by (simp add: pow2_def)
  finally show ?thesis .
qed

lemma pow2_shift52: "pow2 e = of_int (2 ^ 52) * pow2 (e - 52)"
proof -
  have "e = 52 + (e - 52)" by simp
  then have "pow2 e = pow2 (52 + (e - 52))" by (rule arg_cong)
  also have "\<dots> = pow2 52 * pow2 (e - 52)" by (rule pow2_add)
  also have "pow2 52 = of_int (2 ^ 52)" by (simp add: pow2_def)
  finally show ?thesis .
qed

lemma floor_log_bounds:
  assumes "0 < x"
  shows "pow2 \<lfloor>log 2 x\<rfloor> \<le> x" and "x < pow2 (\<lfloor>log 2 x\<rfloor> + 1)"
  using floor_log_eq_powr_iff[of x 2 "\<lfloor>log 2 x\<rfloor>"] assms
  by (simp_all add: powr_pow2)

lemma floor_log_unique:
  assumes "0 < x" "pow2 k \<le> x" "x < pow2 (k + 1)"
  shows "\<lfloor>log 2 x\<rfloor> = k"
  using floor_log_eq_powr_iff[of x 2 k] assms
  by (simp add: powr_pow2)

lemma floor_log_mono:
  assumes "0 < x" "x \<le> y"
  shows "\<lfloor>log 2 x\<rfloor> \<le> \<lfloor>log 2 y\<rfloor>"
  using assms by (intro floor_mono) simp

lemma expo_mono: "0 < x \<Longrightarrow> x \<le> y \<Longrightarrow> expo x \<le> expo y"
  using floor_log_mono[of x y] by (simp add: expo_def)

lemma expo_ge: "- 1022 \<le> expo x"
  by (simp add: expo_def)

lemma ulp_pos [simp]: "0 < ulp x"
  by (simp add: ulp_def)

lemma ulp_nonneg [simp]: "0 \<le> ulp x"
  by (simp add: ulp_def less_imp_le)

lemma ulp_nonzero [simp]: "ulp x \<noteq> 0"
  using ulp_pos[of x] by linarith

lemma below_next_binade:
  assumes "0 < x"
  shows "x < pow2 (expo x + 1)"
proof -
  have "x < pow2 (\<lfloor>log 2 x\<rfloor> + 1)" using floor_log_bounds[OF assms] by simp
  also have "\<dots> \<le> pow2 (expo x + 1)"
    using assms by (intro pow2_le) (simp add: expo_def)
  finally show ?thesis .
qed

lemma round_half_even_int [simp]: "round_half_even (of_int n) = n"
  by (simp add: round_half_even_def)

lemma round_half_even_le: "y \<le> of_int n \<Longrightarrow> round_half_even y \<le> n"
  unfolding round_half_even_def Let_def by (auto; linarith)

lemma round_half_even_ge: "of_int n \<le> y \<Longrightarrow> n \<le> round_half_even y"
  unfolding round_half_even_def Let_def by (auto; linarith)

lemma round_half_even_err: "\<bar>of_int (round_half_even y) - y\<bar> \<le> 1 / 2"
  unfolding round_half_even_def Let_def by (auto; linarith)

lemma round_mag_grid:
  assumes "x = of_int n * ulp x"
  shows "round_mag x = x"
proof -
  have "x / ulp x = of_int n"
    using assms by (metis nonzero_eq_divide_eq ulp_pos less_irrefl)
  then show ?thesis
    using assms by (simp add: round_mag_def)
qed

lemma on_grid:
  assumes "x = of_int m * pow2 k" "0 < m" "m < 2 ^ 53" "- 1074 \<le> k"
  shows "\<exists>n. x = of_int n * ulp x"
proof -
  have x: "0 < x" using assms by simp
  have "expo x - 52 \<le> k"
  proof (cases "expo x = - 1022")
    case True
    then show ?thesis using assms(4) by simp
  next
    case False
    then have e: "expo x = \<lfloor>log 2 x\<rfloor>"
      using x by (simp add: expo_def max_def split: if_splits)
    have "pow2 (expo x) \<le> x" using floor_log_bounds(1)[OF x] e by simp
    also have "x < pow2 53 * pow2 k"
      using assms by (simp add: pow2_def)
    finally have "pow2 (expo x) < pow2 (53 + k)" by (simp add: pow2_add)
    then have "expo x < 53 + k"
      by (metis pow2_le not_less)
    then show ?thesis by simp
  qed
  then have "0 \<le> k - (expo x - 52)" by simp
  then have "pow2 (k - (expo x - 52)) = of_int (2 ^ nat (k - (expo x - 52)))"
    by (rule pow2_nonneg_int)
  moreover have "pow2 k = pow2 (k - (expo x - 52)) * ulp x"
    by (simp add: ulp_def pow2_add[symmetric])
  ultimately have "pow2 k = of_int (2 ^ nat (k - (expo x - 52))) * ulp x"
    by (simp only:)
  then have "of_int m * pow2 k = of_int (m * 2 ^ nat (k - (expo x - 52))) * ulp x"
    by (simp only: of_int_mult mult.assoc)
  with assms(1) show ?thesis by metis
qed

lemma is_doubleI:
  assumes "x = of_int m * pow2 k" "0 < m" "m < 2 ^ 53" "- 1074 \<le> k" "x < 2 ^ 1024"
  shows "is_double x"
proof -
  have x: "0 < x" using assms by simp
  from on_grid[OF assms(1-4)] obtain n where "x = of_int n * ulp x" by blast
  then have "round_mag x = x" by (rule round_mag_grid)
  then show ?thesis
    using x assms(5) by (simp add: is_double_def rnd_def Let_def)
qed

lemma is_double_0 [simp]: "is_double 0"
  by (simp add: is_double_def rnd_def)

lemma is_double_grid:
  assumes "is_double d" "0 < d"
  shows "\<exists>n. d = of_int n * ulp d"
proof -
  from assms have "round_mag d = d"
    by (auto simp: is_double_def rnd_def Let_def split: if_splits)
  then show ?thesis
    unfolding round_mag_def by metis
qed

lemma is_double_lt_max:
  assumes "is_double d"
  shows "d < 2 ^ 1024"
proof (cases "0 < d")
  case True
  with assms show ?thesis
    by (auto simp: is_double_def rnd_def Let_def split: if_splits)
next
  case False
  have "(0::real) < 2 ^ 1024" by simp
  with False show ?thesis by linarith
qed

lemma grid_refine:
  assumes "is_double d" "0 < x" "x \<le> d"
  shows "\<exists>n. d = of_int n * ulp x"
proof -
  have d: "0 < d" using assms by simp
  from is_double_grid[OF assms(1) d] obtain n where n: "d = of_int n * ulp d" by blast
  have "0 \<le> expo d - expo x" using expo_mono[OF assms(2,3)] by simp
  then have "pow2 (expo d - expo x) = of_int (2 ^ nat (expo d - expo x))"
    by (rule pow2_nonneg_int)
  moreover have "ulp d = pow2 (expo d - expo x) * ulp x"
    by (simp add: ulp_def pow2_add[symmetric])
  ultimately have "ulp d = of_int (2 ^ nat (expo d - expo x)) * ulp x"
    by (simp only:)
  then have "of_int n * ulp d = of_int (n * 2 ^ nat (expo d - expo x)) * ulp x"
    by (simp only: of_int_mult mult.assoc)
  with n show ?thesis by metis
qed

lemma round_mag_le:
  assumes "is_double d" "0 < x" "x \<le> d"
  shows "round_mag x \<le> d"
proof -
  from grid_refine[OF assms] obtain n where n: "d = of_int n * ulp x" by blast
  have "x / ulp x \<le> of_int n"
    using assms(3) n by (simp add: pos_divide_le_eq)
  then have "round_half_even (x / ulp x) \<le> n" by (rule round_half_even_le)
  then have "of_int (round_half_even (x / ulp x)) * ulp x \<le> of_int n * ulp x"
    by (simp add: mult_right_mono)
  then show ?thesis by (simp add: round_mag_def n)
qed

lemma round_mag_ge_binade:
  assumes "0 < x" "expo x = \<lfloor>log 2 x\<rfloor>"
  shows "pow2 (expo x) \<le> round_mag x"
proof -
  have "pow2 (expo x) = of_int (2 ^ 52) * ulp x"
    unfolding ulp_def by (rule pow2_shift52)
  moreover have "pow2 (expo x) \<le> x"
    using floor_log_bounds(1)[OF assms(1)] assms(2) by simp
  ultimately have "of_int (2 ^ 52) \<le> x / ulp x"
    by (simp add: pos_le_divide_eq)
  then have "2 ^ 52 \<le> round_half_even (x / ulp x)" by (rule round_half_even_ge)
  then have "of_int (2 ^ 52) * ulp x \<le> of_int (round_half_even (x / ulp x)) * ulp x"
    by (intro mult_right_mono) simp_all
  then show ?thesis
    using \<open>pow2 (expo x) = of_int (2 ^ 52) * ulp x\<close> by (simp add: round_mag_def)
qed

lemma round_mag_ge:
  assumes "is_double d" "0 < d" "d \<le> x"
  shows "d \<le> round_mag x"
proof (cases "expo x = expo d")
  case True
  from is_double_grid[OF assms(1,2)] obtain n where "d = of_int n * ulp d" by blast
  then have n: "d = of_int n * ulp x" by (simp add: ulp_def True)
  have "of_int n \<le> x / ulp x"
    using assms(3) n by (simp add: pos_le_divide_eq)
  then have "n \<le> round_half_even (x / ulp x)" by (rule round_half_even_ge)
  then have "of_int n * ulp x \<le> of_int (round_half_even (x / ulp x)) * ulp x"
    by (intro mult_right_mono) simp_all
  then show ?thesis by (simp add: round_mag_def n)
next
  case False
  have x: "0 < x" using assms by simp
  have lt: "expo d < expo x" using expo_mono[OF assms(2,3)] False by simp
  then have e: "expo x = \<lfloor>log 2 x\<rfloor>"
    using expo_ge[of d] x by (simp add: expo_def max_def split: if_splits)
  have "d < pow2 (expo d + 1)" by (rule below_next_binade[OF assms(2)])
  also have "\<dots> \<le> pow2 (expo x)" using lt by (intro pow2_le) simp
  also have "\<dots> \<le> round_mag x" by (rule round_mag_ge_binade[OF x e])
  finally show ?thesis by simp
qed

lemma round_mag_nonneg: "0 < x \<Longrightarrow> 0 \<le> round_mag x"
proof -
  assume "0 < x"
  then have "of_int 0 \<le> x / ulp x" by (simp add: less_imp_le)
  then have "0 \<le> round_half_even (x / ulp x)" by (rule round_half_even_ge)
  then show ?thesis by (simp add: round_mag_def)
qed

lemma rnd_not_NaN [simp]: "rnd x \<noteq> NaN"
  by (simp add: rnd_def Let_def)

lemma rnd_pos:
  assumes "0 < x"
  shows "rnd x = (if 2 ^ 1024 \<le> round_mag x then PInf else Fin (round_mag x))"
  using assms by (simp add: rnd_def Let_def)

lemma rnd_neg:
  assumes "x \<noteq> 0"
  shows "rnd (- x) = js_neg (rnd x)"
  using assms by (simp add: rnd_def Let_def)

lemma is_double_neg: "is_double d \<Longrightarrow> is_double (- d)"
  by (cases "d = 0") (simp_all add: is_double_def rnd_neg)

lemma rnd_range_pos:
  assumes "is_double lo" "is_double hi" "lo \<le> x" "x \<le> hi" "0 < x"
  shows "in_range (rnd x) lo hi"
proof -
  have hi: "round_mag x \<le> hi" by (rule round_mag_le[OF assms(2,5,4)])
  then have "round_mag x < 2 ^ 1024" using is_double_lt_max[OF assms(2)] by simp
  then have r: "rnd x = Fin (round_mag x)" using assms(5) by (simp add: rnd_pos)
  have "lo \<le> round_mag x"
  proof (cases "0 < lo")
    case True
    then show ?thesis by (rule round_mag_ge[OF assms(1) _ assms(3)])
  next
    case False
    then show ?thesis using round_mag_nonneg[OF assms(5)] by simp
  qed
  with hi r show ?thesis by (simp add: in_range_def)
qed

lemma in_range_neg: "in_range a lo hi \<Longrightarrow> in_range (js_neg a) (- hi) (- lo)"
  by (cases a) (auto simp: in_range_def)

lemma rnd_range:
  assumes "is_double lo" "is_double hi" "lo \<le> x" "x \<le> hi"
  shows "in_range (rnd x) lo hi"
proof -
  consider "x = 0" | "0 < x" | "x < 0" by linarith
  then show ?thesis
  proof cases
    case 1
    then show ?thesis using assms by (simp add: rnd_def in_range_def)
  next
    case 2
    then show ?thesis by (rule rnd_range_pos[OF assms])
  next
    case 3
    then have "in_range (rnd (- x)) (- hi) (- lo)"
      using assms by (intro rnd_range_pos is_double_neg) simp_all
    then have "in_range (js_neg (rnd (- x))) (- (- lo)) (- (- hi))"
      by (rule in_range_neg)
    moreover have "rnd x = js_neg (rnd (- x))"
      using rnd_neg[of "- x"] 3 by simp
    ultimately show ?thesis by simp
  qed
qed

lemma rnd_above:
  assumes "is_double lo" "0 < lo" "lo \<le> x"
  shows "rnd x = PInf \<or> (\<exists>y. rnd x = Fin y \<and> lo \<le> y)"
proof -
  have x: "0 < x" using assms by simp
  have "lo \<le> round_mag x" by (rule round_mag_ge[OF assms])
  then show ?thesis by (simp add: rnd_pos[OF x])
qed

lemma rnd_sign:
  "0 < x \<Longrightarrow> \<not> negative (rnd x)" "x < 0 \<Longrightarrow> negative (rnd x)"
proof -
  show "0 < x \<Longrightarrow> \<not> negative (rnd x)"
    using round_mag_nonneg[of x] by (simp add: rnd_pos)
  assume "x < 0"
  then have "0 < - x" by simp
  then have "\<not> negative (rnd (- x))" "rnd (- x) \<noteq> NaN"
    using round_mag_nonneg[of "- x"] by (simp_all add: rnd_pos)
  moreover have "rnd x = js_neg (rnd (- x))"
    using rnd_neg[of "- x"] \<open>x < 0\<close> by simp
  ultimately show "negative (rnd x)"
    by (cases "rnd (- x)") (auto split: if_splits)
qed

lemma rnd_err:
  assumes "0 < x" "x < 2"
  shows "\<exists>y. rnd x = Fin y \<and> \<bar>y - x\<bar> \<le> pow2 (- 53)"
proof -
  have "x < pow2 1" using assms by (simp add: pow2_def)
  then have "\<lfloor>log 2 x\<rfloor> < 1"
    using floor_log_bounds(1)[OF assms(1)] by (metis pow2_le not_less le_less_trans)
  then have "expo x \<le> 0" using assms(1) by (simp add: expo_def)
  then have u: "ulp x \<le> pow2 (- 52)"
    unfolding ulp_def by (intro pow2_le) simp
  have "\<bar>of_int (round_half_even (x / ulp x)) - x / ulp x\<bar> \<le> 1 / 2"
    by (rule round_half_even_err)
  then have "\<bar>of_int (round_half_even (x / ulp x)) - x / ulp x\<bar> * ulp x \<le> 1 / 2 * ulp x"
    by (intro mult_right_mono) simp_all
  moreover have "\<bar>of_int (round_half_even (x / ulp x)) - x / ulp x\<bar> * ulp x = \<bar>round_mag x - x\<bar>"
  proof -
    have "\<bar>of_int (round_half_even (x / ulp x)) - x / ulp x\<bar> * ulp x =
          \<bar>(of_int (round_half_even (x / ulp x)) - x / ulp x) * ulp x\<bar>"
      by (simp add: abs_mult)
    also have "(of_int (round_half_even (x / ulp x)) - x / ulp x) * ulp x = round_mag x - x"
      by (simp add: round_mag_def left_diff_distrib)
    finally show ?thesis .
  qed
  moreover have "1 / 2 * pow2 (- 52) = pow2 (- 53)"
    by (simp add: pow2_def)
  ultimately have e: "\<bar>round_mag x - x\<bar> \<le> pow2 (- 53)"
    using u by linarith
  have "pow2 (- 53) \<le> 1" by (simp add: pow2_def)
  with e assms have "round_mag x < 4" by linarith
  also have "(4::real) \<le> 2 ^ 1024" by simp
  finally have "rnd x = Fin (round_mag x)" using assms(1) by (simp add: rnd_pos)
  with e show ?thesis by blast
qed

lemma rnd_is_double:
  assumes "rnd x = Fin y"
  shows "is_double y"
proof -
  have pos: "is_double y" if x: "0 < x" and r: "rnd x = Fin y" for x y
  proof -
    from r x have y: "y = round_mag x" "y < 2 ^ 1024"
      by (auto simp: rnd_pos split: if_splits)
    define n where "n = round_half_even (x / ulp x)"
    have yn: "y = of_int n * ulp x" by (simp add: y round_mag_def n_def)
    have "x < pow2 (expo x + 1)" by (rule below_next_binade[OF x])
    also have "\<dots> = of_int (2 ^ 53) * ulp x"
      unfolding ulp_def by (rule pow2_shift53)
    finally have "x / ulp x \<le> of_int (2 ^ 53)"
      by (simp add: pos_divide_le_eq less_imp_le)
    then have n53: "n \<le> 2 ^ 53" unfolding n_def by (rule round_half_even_le)
    have "of_int 0 \<le> x / ulp x" using x by (simp add: less_imp_le)
    then have n0: "0 \<le> n" unfolding n_def by (rule round_half_even_ge)
    show ?thesis
    proof (cases "n = 0")
      case True
      then show ?thesis by (simp add: yn)
    next
      case False
      show ?thesis
      proof (cases "n = 2 ^ 53")
        case True
        have "y = of_int 1 * pow2 (expo x + 1)"
          unfolding yn True ulp_def by (simp add: pow2_shift53)
        then show ?thesis
          using expo_ge[of x] y(2) by (intro is_doubleI[of y 1 "expo x + 1"]) simp_all
      next
        case n: False
        have "y = of_int n * pow2 (expo x - 52)" by (simp add: yn ulp_def)
        then show ?thesis
          using expo_ge[of x] y(2) n n53 n0 False
          by (intro is_doubleI[of y n "expo x - 52"]) simp_all
      qed
    qed
  qed
  consider "x = 0" | "0 < x" | "x < 0" by linarith
  then show ?thesis
  proof cases
    case 1
    with assms show ?thesis by (simp add: rnd_def)
  next
    case 2
    then show ?thesis using assms by (rule pos)
  next
    case 3
    have r: "rnd x = js_neg (rnd (- x))" using rnd_neg[of "- x"] 3 by simp
    from 3 have "0 < - x" by simp
    then have "rnd (- x) \<noteq> NZero" by (simp add: rnd_pos)
    with r assms obtain z where z: "rnd (- x) = Fin z" "y = - z"
      by (cases "rnd (- x)") (auto split: if_splits)
    from pos[OF \<open>0 < - x\<close> z(1)] show ?thesis
      unfolding z(2) by (rule is_double_neg)
  qed
qed

lemma is_double_multiple:
  assumes "is_double d"
  shows "\<exists>n. d = of_int n * pow2 (- 1074)"
proof -
  have pos: "\<exists>n. d = of_int n * pow2 (- 1074)" if "is_double d" "0 < d" for d
  proof -
    from is_double_grid[OF that] obtain n where n: "d = of_int n * ulp d" by blast
    have "0 \<le> expo d - 52 + 1074" using expo_ge[of d] by simp
    then have "pow2 (expo d - 52 + 1074) = of_int (2 ^ nat (expo d - 52 + 1074))"
      by (rule pow2_nonneg_int)
    moreover have "ulp d = pow2 (expo d - 52 + 1074) * pow2 (- 1074)"
      by (simp add: ulp_def pow2_add[symmetric])
    ultimately have "ulp d = of_int (2 ^ nat (expo d - 52 + 1074)) * pow2 (- 1074)"
      by (simp only:)
    then have "of_int n * ulp d = of_int (n * 2 ^ nat (expo d - 52 + 1074)) * pow2 (- 1074)"
      by (simp only: of_int_mult mult.assoc)
    with n show ?thesis by metis
  qed
  consider "d = 0" | "0 < d" | "d < 0" by linarith
  then show ?thesis
  proof cases
    case 1
    then have "d = of_int 0 * pow2 (- 1074)" by simp
    then show ?thesis by blast
  next
    case 2
    then show ?thesis by (rule pos[OF assms])
  next
    case 3
    then have "0 < - d" by simp
    from pos[OF is_double_neg[OF assms] this] obtain n where "- d = of_int n * pow2 (- 1074)"
      by blast
    then have "d = of_int (- n) * pow2 (- 1074)" by simp
    then show ?thesis by blast
  qed
qed

lemma double_gap:
  assumes "is_double a" "is_double b" "a < b"
  shows "pow2 (- 1074) \<le> b - a"
proof -
  from is_double_multiple[OF assms(1)] obtain na where na: "a = of_int na * pow2 (- 1074)"
    by blast
  from is_double_multiple[OF assms(2)] obtain nb where nb: "b = of_int nb * pow2 (- 1074)"
    by blast
  have "of_int na * pow2 (- 1074) < of_int nb * pow2 (- 1074)"
    using assms(3) na nb by simp
  then have "na < nb" by simp
  then have "(1::real) \<le> of_int (nb - na)" by linarith
  then have "1 * pow2 (- 1074) \<le> of_int (nb - na) * pow2 (- 1074)"
    by (intro mult_right_mono) (simp_all add: less_imp_le)
  then show ?thesis by (simp add: na nb left_diff_distrib)
qed

lemma is_double_tiny: "is_double (pow2 (- 1074))"
proof -
  have "pow2 (- 1074) \<le> 1" by (simp add: pow2_def)
  also have "(1::real) < 2 ^ 1024" by simp
  finally show ?thesis
    by (intro is_doubleI[of _ 1 "- 1074"]) simp_all
qed

lemma rnd_overflow:
  assumes "2 ^ 1024 \<le> x"
  shows "rnd x = PInf"
proof -
  have p: "pow2 1024 = 2 ^ 1024" by (simp add: pow2_def)
  have x: "0 < x" using assms by (smt (verit) zero_less_power)
  have "\<lfloor>log 2 (pow2 1024)\<rfloor> = 1024"
    by (intro floor_log_unique pow2_less) simp_all
  moreover have "\<lfloor>log 2 (pow2 1024)\<rfloor> \<le> \<lfloor>log 2 x\<rfloor>"
    using assms p by (intro floor_log_mono) simp_all
  ultimately have l: "1024 \<le> \<lfloor>log 2 x\<rfloor>" by simp
  then have e: "expo x = \<lfloor>log 2 x\<rfloor>" using x by (simp add: expo_def)
  have "pow2 1024 \<le> pow2 (expo x)" using l e by (intro pow2_le) simp
  also have "\<dots> \<le> round_mag x" by (rule round_mag_ge_binade[OF x e])
  finally show ?thesis using x p by (simp add: rnd_pos)
qed

lemma is_double_rnd: "is_double x \<Longrightarrow> rnd x = Fin x"
  by (simp add: is_double_def)

lemma is_double_small_int:
  "is_double 1" "is_double 2" "is_double 3"
  by (rule is_doubleI[of _ 1 0], simp_all add: pow2_def)
     (rule is_doubleI[of _ 2 0], simp_all add: pow2_def,
      rule is_doubleI[of _ 3 0], simp_all add: pow2_def)

lemma rnd_small_int [simp]: "rnd 1 = Fin 1" "rnd 2 = Fin 2" "rnd 3 = Fin 3"
  using is_double_small_int by (simp_all add: is_double_def)

subsection \<open>Evaluation\<close>

text \<open>
  \<open>rnd\<close> is computed from the binade of its argument. Two known values of JavaScript:
  the literal \<open>0.1\<close> is the double \<open>3602879701896397 / 2 ^ 55\<close>, and \<open>0.1 + 0.2\<close> is
  \<open>0.30000000000000004\<close>, the double \<open>5404319552844596 / 2 ^ 54\<close> (a tie, rounded to the
  even significand).
\<close>

lemma expo_eq:
  assumes "0 < x" "pow2 k \<le> x" "x < pow2 (k + 1)" "- 1022 \<le> k"
  shows "expo x = k"
  using floor_log_unique[OF assms(1-3)] assms(1,4) by (simp add: expo_def)

lemma round_half_even_frac:
  assumes "0 < q" "r < q" "0 \<le> r" "2 * r \<noteq> q"
  shows "round_half_even (of_int (n * q + r) / of_int q) = (if 2 * r < q then n else n + 1)"
proof -
  have q: "(0 :: real) < of_int q" using assms(1) by simp
  have eq: "real_of_int (n * q + r) / of_int q = of_int n + of_int r / of_int q"
    using assms(1) by (simp add: field_simps)
  have fr: "0 \<le> real_of_int r / of_int q" "real_of_int r / of_int q < 1"
    using assms by (simp_all add: divide_less_eq)
  have fl: "\<lfloor>real_of_int (n * q + r) / of_int q\<rfloor> = n"
    unfolding eq using fr by (simp add: floor_unique)
  have half: "(real_of_int r / of_int q < 1 / 2) = (2 * r < q)"
  proof -
    have "(real_of_int r / of_int q < 1 / 2) = (real_of_int (2 * r) < of_int q)"
      using q by (simp add: field_simps)
    also have "\<dots> = (2 * r < q)" by (simp only: of_int_less_iff)
    finally show ?thesis .
  qed
  have half': "(1 / 2 < real_of_int r / of_int q) = (q < 2 * r)"
  proof -
    have "(1 / 2 < real_of_int r / of_int q) = (of_int q < real_of_int (2 * r))"
      using q by (simp add: field_simps)
    also have "\<dots> = (q < 2 * r)" by (simp only: of_int_less_iff)
    finally show ?thesis .
  qed
  have y: "real_of_int (n * q + r) / of_int q - of_int n = of_int r / of_int q"
    unfolding eq by simp
  show ?thesis
    unfolding round_half_even_def Let_def fl y half half'
    using assms(4) by auto
qed

lemma round_half_even_tie:
  "round_half_even (of_int n + 1 / 2) = (if even n then n else n + 1)"
proof -
  have "\<lfloor>real_of_int n + 1 / 2\<rfloor> = n" by (simp add: floor_unique)
  then show ?thesis by (simp add: round_half_even_def Let_def)
qed

lemma rnd_eval:
  assumes "pow2 k \<le> x" "x < pow2 (k + 1)" "- 1022 \<le> k"
      and "round_half_even (x / pow2 (k - 52)) = m" "m \<le> 2 ^ 53" "k < 1023"
  shows "rnd x = Fin (of_int m * pow2 (k - 52))"
proof -
  have pos: "0 < x" using assms(1) pow2_pos[of k] by linarith
  have e: "expo x = k" using pos assms(1-3) by (rule expo_eq)
  have rm: "round_mag x = of_int m * pow2 (k - 52)"
    by (simp add: round_mag_def ulp_def e assms(4))
  have "pow2 k \<le> round_mag x" using round_mag_ge_binade[of x] pos e
    floor_log_unique[OF pos assms(1,2)] by simp
  then have nz: "0 < round_mag x" using pow2_pos[of k] by linarith
  have "real_of_int m * pow2 (k - 52) \<le> of_int (2 ^ 53) * pow2 (k - 52)"
    using assms(5) by (intro mult_right_mono) (simp_all add: less_imp_le)
  also have "\<dots> = pow2 (k + 1)" by (rule pow2_shift53[symmetric])
  also have "\<dots> \<le> pow2 1023" using assms(6) by (intro pow2_le) simp
  also have "\<dots> < 2 ^ 1024" by (simp add: pow2_def)
  finally have "round_mag x < 2 ^ 1024" unfolding rm .
  then show ?thesis using pos nz by (simp add: rnd_pos rm)
qed

lemma pow2_values:
  "pow2 (- 4) = 1 / 2 ^ 4" "pow2 (- 3) = 1 / 2 ^ 3" "pow2 (- 2) = 1 / 2 ^ 2"
  "pow2 (- 1) = 1 / 2" "pow2 (- 54) = 1 / 2 ^ 54" "pow2 (- 55) = 1 / 2 ^ 55"
  "pow2 (- 56) = 1 / 2 ^ 56"
  by (simp_all add: pow2_def power_int_minus)

lemma lit_tenth: "lit 0.1 = Fin (3602879701896397 / 2 ^ 55)"
proof -
  have "round_half_even (real_of_int (7205759403792793 * 5 + 3) / real_of_int 5) =
          (if 2 * 3 < (5 :: int) then 7205759403792793 else 7205759403792793 + 1)"
    by (rule round_half_even_frac) simp_all
  then have r: "round_half_even (36028797018963968 / 5 :: real) = 7205759403792794"
    by simp
  have "rnd 0.1 = Fin (of_int 7205759403792794 * pow2 (- 4 - 52))"
    by (rule rnd_eval) (simp_all add: pow2_values r)
  then show ?thesis by (simp add: lit_def pow2_values)
qed

lemma lit_fifth: "lit 0.2 = Fin (3602879701896397 / 2 ^ 54)"
proof -
  have "round_half_even (real_of_int (7205759403792793 * 5 + 3) / real_of_int 5) =
          (if 2 * 3 < (5 :: int) then 7205759403792793 else 7205759403792793 + 1)"
    by (rule round_half_even_frac) simp_all
  then have r: "round_half_even (36028797018963968 / 5 :: real) = 7205759403792794"
    by simp
  have "rnd 0.2 = Fin (of_int 7205759403792794 * pow2 (- 3 - 52))"
    by (rule rnd_eval) (simp_all add: pow2_values r)
  then show ?thesis by (simp add: lit_def pow2_values)
qed

lemma tenth_plus_fifth: "js_add (lit 0.1) (lit 0.2) = Fin (5404319552844596 / 2 ^ 54)"
proof -
  have "round_half_even (real_of_int 5404319552844595 + 1 / 2) =
          (if even (5404319552844595 :: int) then 5404319552844595 else 5404319552844595 + 1)"
    by (rule round_half_even_tie)
  then have r: "round_half_even (10808639105689191 / 2 :: real) = 5404319552844596"
    by simp
  have "rnd (10808639105689191 / 2 ^ 55) = Fin (of_int 5404319552844596 * pow2 (- 2 - 52))"
    by (rule rnd_eval) (simp_all add: pow2_values r)
  then show ?thesis
    unfolding lit_tenth lit_fifth
    by (simp add: js_add_def is_inf_def Let_def pow2_values)
qed

section \<open>Properties of the skin weights\<close>

subsection \<open>The operations on finite numbers\<close>

lemma is_fin_cases:
  assumes "is_fin a"
  obtains x where "a = Fin x" | "a = NZero"
  using assms by (cases a) simp_all

lemma is_number_Fin [simp]: "is_number (Fin x) = is_double x"
  by (simp add: is_number_def)

lemma is_number_NZero [simp]: "is_number NZero"
  by (simp add: is_number_def)

lemma is_number_fin: "is_number a \<Longrightarrow> is_fin a"
  by (simp add: is_number_def)

lemma is_fin_neg [simp]: "is_fin (js_neg a) = is_fin a"
  by (cases a) simp_all

lemma val_neg [simp]: "val (js_neg a) = - val a"
  by (cases a) simp_all

lemma is_number_neg: "is_number a \<Longrightarrow> is_number (js_neg a)"
  by (cases a) (simp_all add: is_double_neg is_number_def)

lemma rnd_is_number: "is_fin (rnd x) \<Longrightarrow> is_number (rnd x)"
  by (cases "rnd x") (simp_all add: rnd_is_double)

lemma in_range_is_fin: "in_range a lo hi \<Longrightarrow> is_fin a"
  by (simp add: in_range_def)

lemma js_add_fin:
  assumes "is_fin a" "is_fin b" "val a + val b \<noteq> 0"
  shows "js_add a b = rnd (val a + val b)"
  using assms by (cases a; cases b) (simp_all add: js_add_def is_inf_def Let_def)

lemma js_add_fin_zero:
  assumes "is_fin a" "is_fin b" "val a + val b = 0"
  shows "js_add a b = signed_zero (a = NZero \<and> b = NZero)"
  using assms by (cases a; cases b) (simp_all add: js_add_def is_inf_def Let_def)

lemma js_sub_fin:
  assumes "is_fin a" "is_fin b" "val a \<noteq> val b"
  shows "js_sub a b = rnd (val a - val b)"
  using assms js_add_fin[of a "js_neg b"] by (simp add: js_sub_def)

lemma js_sub_fin_eq:
  assumes "is_fin a" "is_fin b" "val a = val b"
  shows "js_sub a b = signed_zero (a = NZero \<and> b = Fin 0)"
proof -
  have "js_neg b = NZero \<longleftrightarrow> b = Fin 0" by (cases b) (simp_all split: if_splits)
  with assms js_add_fin_zero[of a "js_neg b"] show ?thesis by (simp add: js_sub_def)
qed

lemma js_mul_fin:
  assumes "is_fin a" "is_fin b"
  shows "js_mul a b = (if val a * val b = 0 then signed_zero (negative a \<noteq> negative b)
                       else rnd (val a * val b))"
  using assms by (cases a; cases b) (simp_all add: js_mul_def is_inf_def Let_def)

lemma js_lt_fin: "is_fin a \<Longrightarrow> is_fin b \<Longrightarrow> js_lt a b = (val a < val b)"
  by (cases a; cases b) (simp_all add: js_lt_def)

lemma rnd_Fin_range:
  assumes "is_double lo" "is_double hi" "lo \<le> x" "x \<le> hi" "0 < x"
  shows "\<exists>y. rnd x = Fin y \<and> lo \<le> y \<and> y \<le> hi"
proof -
  have "in_range (rnd x) lo hi" using assms by (intro rnd_range)
  moreover have "rnd x = PInf \<or> (\<exists>y. rnd x = Fin y)" using assms(5) by (simp add: rnd_pos)
  ultimately show ?thesis by (auto simp: in_range_def)
qed

subsection \<open>\<open>smoothstep\<close> on a proper interval\<close>

lemma clamp_cases:
  "Math_max (Fin 0) (Math_min (Fin 1) q) =
     (case q of NaN \<Rightarrow> NaN | PInf \<Rightarrow> Fin 1 | NInf \<Rightarrow> Fin 0 | NZero \<Rightarrow> Fin 0
      | Fin y \<Rightarrow> if y \<le> 0 then Fin 0 else if 1 \<le> y then Fin 1 else Fin y)"
  by (cases q) (simp_all add: Math_max_def Math_min_def js_lt_def)

lemma clamp_unit:
  assumes "q \<noteq> NaN"
  shows "\<exists>t. Math_max (Fin 0) (Math_min (Fin 1) q) = Fin t \<and> 0 \<le> t \<and> t \<le> 1"
  using assms unfolding clamp_cases by (cases q) simp_all

lemma js_mul_unit_range:
  assumes "0 \<le> a" "a \<le> ha" "0 \<le> b" "b \<le> hb" "is_double (ha * hb)"
  shows "\<exists>y. js_mul (Fin a) (Fin b) = Fin y \<and> 0 \<le> y \<and> y \<le> ha * hb"
proof (cases "a * b = 0")
  case True
  then show ?thesis using assms(1-4)
    by (auto simp: js_mul_fin signed_zero_def intro: mult_nonneg_nonneg order_trans)
next
  case False
  then have pos: "0 < a * b" using assms(1,3) by (simp add: less_le)
  have "a * b \<le> ha * hb" using assms(1-4) by (intro mult_mono) auto
  from rnd_Fin_range[OF is_double_0 assms(5) _ this pos] pos False
  show ?thesis by (simp add: js_mul_fin)
qed

lemma three_minus:
  assumes "0 \<le> u" "u \<le> 2"
  shows "\<exists>y. js_sub (Fin 3) (Fin u) = Fin y \<and> 1 \<le> y \<and> y \<le> 3"
proof -
  have "js_sub (Fin 3) (Fin u) = rnd (3 - u)"
    using assms js_sub_fin[of "Fin 3" "Fin u"] by simp
  moreover have "\<exists>y. rnd (3 - u) = Fin y \<and> 1 \<le> y \<and> y \<le> 3"
    using assms by (intro rnd_Fin_range is_double_small_int) simp_all
  ultimately show ?thesis by simp
qed

lemma smoothstep_of_unit:
  assumes "smoothstep_t edge0 edge1 x = Fin t" "0 \<le> t" "t \<le> 1"
  shows "\<exists>w. smoothstep edge0 edge1 x = Fin w \<and> 0 \<le> w \<and> w \<le> 1"
proof -
  from js_mul_unit_range[of t 1 t 1] assms(2,3)
  obtain a where a: "js_mul (Fin t) (Fin t) = Fin a" "0 \<le> a" "a \<le> 1"
    by (auto simp: is_double_small_int)
  from js_mul_unit_range[of 2 2 t 1] assms(2,3)
  obtain u where u: "js_mul (Fin 2) (Fin t) = Fin u" "0 \<le> u" "u \<le> 2"
    by (auto simp: is_double_small_int)
  from three_minus[OF u(2,3)]
  obtain b where b: "js_sub (Fin 3) (Fin u) = Fin b" "1 \<le> b" "b \<le> 3" by blast
  from js_mul_unit_range[of a 1 b 3] a b
  obtain r where r: "js_mul (Fin a) (Fin b) = Fin r" "0 \<le> r" "r \<le> 3"
    by (auto simp: is_double_small_int)
  have "smoothstep edge0 edge1 x = Math_max (Fin 0) (Math_min (Fin 1) (Fin r))"
    by (simp add: smoothstep_def assms(1) a u b r)
  with clamp_unit[of "Fin r"] show ?thesis by simp
qed

lemma smoothstep_of_0:
  assumes "smoothstep_t edge0 edge1 x = Fin 0"
  shows "smoothstep edge0 edge1 x = Fin 0"
proof -
  have "js_sub (Fin 3) (Fin 0) = Fin 3" using js_sub_fin[of "Fin 3" "Fin 0"] by simp
  then show ?thesis
    by (simp add: smoothstep_def assms js_mul_fin signed_zero_def clamp_cases)
qed

lemma smoothstep_of_1:
  assumes "smoothstep_t edge0 edge1 x = Fin 1"
  shows "smoothstep edge0 edge1 x = Fin 1"
proof -
  have "js_sub (Fin 3) (Fin 2) = Fin 1" using js_sub_fin[of "Fin 3" "Fin 2"] by simp
  then show ?thesis
    by (simp add: smoothstep_def assms js_mul_fin clamp_cases)
qed

lemma smoothstep_of_NaN:
  assumes "smoothstep_t edge0 edge1 x = NaN"
  shows "smoothstep edge0 edge1 x = NaN"
  by (simp add: smoothstep_def assms js_mul_def Math_min_def Math_max_def)

lemma js_sub_gap:
  assumes "is_number a" "is_number b" "val a < val b"
  shows "js_sub b a = PInf \<or> (\<exists>d. js_sub b a = Fin d \<and> 0 < d)"
proof -
  have fin: "is_fin a" "is_fin b" using assms by (simp_all add: is_number_fin)
  have dbl: "is_double (val a)" "is_double (val b)" using assms by (simp_all add: is_number_def)
  have "pow2 (- 1074) \<le> val b - val a" using dbl assms(3) by (rule double_gap)
  from rnd_above[OF is_double_tiny pow2_pos this]
  have "rnd (val b - val a) = PInf \<or> (\<exists>d. rnd (val b - val a) = Fin d \<and> 0 < d)"
    by (auto intro: less_le_trans[OF pow2_pos])
  moreover have "js_sub b a = rnd (val b - val a)"
    using fin assms(3) by (intro js_sub_fin) simp_all
  ultimately show ?thesis by simp
qed

lemma js_sub_not_NaN:
  assumes "a \<noteq> NaN" "is_fin b"
  shows "js_sub a b \<noteq> NaN"
proof -
  have "js_neg b \<noteq> NaN" "js_neg b \<noteq> PInf" "js_neg b \<noteq> NInf"
    using assms(2) by (cases b; simp split: if_splits)+
  then show ?thesis using assms(1)
    by (simp add: js_sub_def js_add_def is_inf_def signed_zero_def Let_def)
qed

lemma js_div_pos_not_NaN:
  assumes "n \<noteq> NaN" "0 < d"
  shows "js_div n (Fin d) \<noteq> NaN"
  using assms by (simp add: js_div_def is_inf_def is_zero_def signed_inf_def signed_zero_def)

lemma smoothstep_t_unit:
  assumes "is_number edge0" "is_number edge1" "x \<noteq> NaN" "js_lt edge0 edge1"
      and "js_sub edge1 edge0 \<noteq> PInf"
  shows "\<exists>t. smoothstep_t edge0 edge1 x = Fin t \<and> 0 \<le> t \<and> t \<le> 1"
proof -
  have lt: "val edge0 < val edge1"
    using assms(1,2,4) by (simp add: js_lt_fin is_number_fin)
  from js_sub_gap[OF assms(1,2) lt] assms(5)
  obtain d where d: "js_sub edge1 edge0 = Fin d" "0 < d" by blast
  have "js_sub x edge0 \<noteq> NaN"
    using assms(1,3) by (intro js_sub_not_NaN) (simp_all add: is_number_fin)
  then have "js_div (js_sub x edge0) (Fin d) \<noteq> NaN" using d(2) by (rule js_div_pos_not_NaN)
  from clamp_unit[OF this] show ?thesis by (simp add: smoothstep_t_def d(1))
qed

lemma smoothstep_t_at_edge0:
  assumes "is_number edge0" "is_number edge1" "is_fin x" "js_lt edge0 edge1"
      and "js_sub edge1 edge0 \<noteq> PInf" and "val x = val edge0"
  shows "smoothstep_t edge0 edge1 x = Fin 0"
proof -
  have lt: "val edge0 < val edge1"
    using assms(1,2,4) by (simp add: js_lt_fin is_number_fin)
  from js_sub_gap[OF assms(1,2) lt] assms(5)
  obtain d where d: "js_sub edge1 edge0 = Fin d" "0 < d" by blast
  have "js_sub x edge0 = signed_zero (x = NZero \<and> edge0 = Fin 0)"
    using assms(1,3,6) by (intro js_sub_fin_eq) (simp_all add: is_number_fin)
  then have "js_sub x edge0 = Fin 0 \<or> js_sub x edge0 = NZero" by (simp add: signed_zero_def)
  then have "js_div (js_sub x edge0) (Fin d) = Fin 0 \<or> js_div (js_sub x edge0) (Fin d) = NZero"
    using d(2) by (auto simp: js_div_def is_inf_def is_zero_def signed_zero_def)
  then show ?thesis by (auto simp: smoothstep_t_def d(1) clamp_cases)
qed

lemma smoothstep_t_at_edge1:
  assumes "is_number edge0" "is_number edge1" "is_fin x" "js_lt edge0 edge1"
      and "js_sub edge1 edge0 \<noteq> PInf" and "val x = val edge1"
  shows "smoothstep_t edge0 edge1 x = Fin 1"
proof -
  have fin: "is_fin edge0" "is_fin edge1" "is_fin x"
    using assms(1-3) by (simp_all add: is_number_fin)
  have lt: "val edge0 < val edge1" using fin assms(4) by (simp add: js_lt_fin)
  from js_sub_gap[OF assms(1,2) lt] assms(5)
  obtain d where d: "js_sub edge1 edge0 = Fin d" "0 < d" by blast
  have "js_sub x edge0 = rnd (val x - val edge0)"
    using fin lt assms(6) by (intro js_sub_fin) simp_all
  also have "\<dots> = js_sub edge1 edge0"
    using fin lt assms(6) by (simp add: js_sub_fin)
  finally have "js_sub x edge0 = Fin d" using d(1) by simp
  then have "js_div (js_sub x edge0) (Fin d) = Fin 1"
    using d(2) by (simp add: js_div_def is_inf_def is_zero_def)
  then show ?thesis by (simp add: smoothstep_t_def d(1) clamp_cases)
qed

lemma one_minus_unit:
  assumes "0 \<le> w" "w \<le> 1"
  shows "\<exists>a s. js_sub (Fin 1) (Fin w) = Fin a \<and> 0 \<le> a \<and> a \<le> 1 \<and>
           js_add (Fin a) (Fin w) = Fin s \<and> \<bar>s - 1\<bar> \<le> 1 / 10 ^ 6"
proof -
  have small: "2 * pow2 (- 53) \<le> (1 / 10 ^ 6 :: real)" "pow2 (- 53) < (1 :: real)"
    by (simp_all add: pow2_def power_int_minus)
  consider "w = 1" | "w < 1" using assms(2) by fastforce
  then show ?thesis
  proof cases
    case 1
    have "js_sub (Fin 1) (Fin 1) = Fin 0"
      using js_sub_fin_eq[of "Fin 1" "Fin 1"] by (simp add: signed_zero_def)
    moreover have "js_add (Fin 0) (Fin 1) = Fin 1" using js_add_fin[of "Fin 0" "Fin 1"] by simp
    ultimately show ?thesis using 1 by simp
  next
    case 2
    then have pos: "0 < 1 - w" "1 - w < 2" "1 - w \<le> 1" using assms(1) by simp_all
    have sub: "js_sub (Fin 1) (Fin w) = rnd (1 - w)"
      using 2 js_sub_fin[of "Fin 1" "Fin w"] by simp
    from rnd_err[OF pos(1,2)] obtain a where a: "rnd (1 - w) = Fin a" "\<bar>a - (1 - w)\<bar> \<le> pow2 (- 53)"
      by blast
    from rnd_Fin_range[OF is_double_0 is_double_small_int(1) _ pos(3) pos(1)] a(1) pos(1)
    have ar: "0 \<le> a" "a \<le> 1" by simp_all
    have s: "0 < a + w" "a + w < 2" using a(2) small(2) ar assms 2 by (simp_all add: abs_le_iff)
    have add: "js_add (Fin a) (Fin w) = rnd (a + w)"
      using s(1) js_add_fin[of "Fin a" "Fin w"] by simp
    from rnd_err[OF s] obtain s' where s': "rnd (a + w) = Fin s'" "\<bar>s' - (a + w)\<bar> \<le> pow2 (- 53)"
      by blast
    have "\<bar>s' - 1\<bar> \<le> 2 * pow2 (- 53)" using a(2) s'(2) by (simp add: abs_le_iff)
    then have "\<bar>s' - 1\<bar> \<le> 1 / 10 ^ 6" using small(1) by linarith
    then show ?thesis using sub add a(1) s'(1) ar by simp
  qed
qed

subsection \<open>The edges of the weight loops\<close>

lemma is_double_frac:
  assumes "0 < m" "m < 2 ^ 53" "n \<le> 1074"
  shows "is_double (of_int m / 2 ^ n)"
proof (rule is_doubleI[of _ m "- int n"])
  show "real_of_int m / 2 ^ n = of_int m * pow2 (- int n)"
    by (simp add: pow2_def power_int_minus divide_inverse)
  have "real_of_int m / 2 ^ n \<le> of_int m" using assms(1) by (simp add: divide_le_eq)
  also have "\<dots> < 2 ^ 53" using assms(2) by (metis of_int_less_numeral_power_cancel_iff)
  also have "\<dots> \<le> (2 :: real) ^ 1024" by (rule power_increasing) simp_all
  finally show "real_of_int m / 2 ^ n < 2 ^ 1024" .
qed (use assms in simp_all)

lemma in_range_mono:
  "in_range a lo hi \<Longrightarrow> lo' \<le> lo \<Longrightarrow> hi \<le> hi' \<Longrightarrow> in_range a lo' hi'"
  by (simp add: in_range_def)

lemma js_add_range:
  assumes "in_range a la ha" "in_range b lb hb" "is_double (la + lb)" "is_double (ha + hb)"
  shows "in_range (js_add a b) (la + lb) (ha + hb)"
proof -
  have fin: "is_fin a" "is_fin b" using assms(1,2) by (simp_all add: in_range_def)
  have b: "la + lb \<le> val a + val b" "val a + val b \<le> ha + hb"
    using assms(1,2) by (simp_all add: in_range_def)
  show ?thesis
  proof (cases "val a + val b = 0")
    case True
    then show ?thesis using b fin
      by (auto simp: js_add_fin_zero signed_zero_def in_range_def)
  next
    case False
    then show ?thesis using b fin assms(3,4) by (simp add: js_add_fin rnd_range)
  qed
qed

lemma js_sub_range:
  assumes "in_range a la ha" "in_range b lb hb" "is_double (la - hb)" "is_double (ha - lb)"
  shows "in_range (js_sub a b) (la - hb) (ha - lb)"
  using js_add_range[OF assms(1) in_range_neg[OF assms(2)]] assms(3,4)
  by (simp add: js_sub_def)

lemma js_mul_range:
  assumes "in_range a la ha" "in_range b lb hb" "0 \<le> la" "0 \<le> lb"
      and "is_double (la * lb)" "is_double (ha * hb)"
  shows "in_range (js_mul a b) (la * lb) (ha * hb)"
proof -
  have fin: "is_fin a" "is_fin b" using assms(1,2) by (simp_all add: in_range_def)
  have va: "la \<le> val a" "val a \<le> ha" and vb: "lb \<le> val b" "val b \<le> hb"
    using assms(1,2) by (simp_all add: in_range_def)
  have b: "la * lb \<le> val a * val b" "val a * val b \<le> ha * hb"
    using va vb assms(3,4) by (auto intro!: mult_mono)
  show ?thesis
  proof (cases "val a * val b = 0")
    case True
    then show ?thesis using b fin
      by (auto simp: js_mul_fin signed_zero_def in_range_def)
  next
    case False
    then show ?thesis using b fin assms(5,6) by (simp add: js_mul_fin rnd_range)
  qed
qed

lemma js_add_is_number:
  assumes "is_fin a" "is_fin b" "is_fin (js_add a b)"
  shows "is_number (js_add a b)"
proof (cases "val a + val b = 0")
  case True
  then show ?thesis using assms by (simp add: js_add_fin_zero signed_zero_def)
next
  case False
  then show ?thesis using assms by (simp add: js_add_fin rnd_is_number)
qed

lemma js_sub_is_number:
  assumes "is_fin a" "is_fin b" "is_fin (js_sub a b)"
  shows "is_number (js_sub a b)"
  using assms js_add_is_number[of a "js_neg b"] by (simp add: js_sub_def)

lemma lit_is_number: "is_fin (lit x) \<Longrightarrow> is_number (lit x)"
  by (simp add: lit_def rnd_is_number)

lemma lit_range:
  assumes "is_double lo" "is_double hi" "lo \<le> x" "x \<le> hi"
  shows "in_range (lit x) lo hi"
  unfolding lit_def using assms by (rule rnd_range)

lemma interval_ok:
  assumes "in_range edge0 (- 1) h" "in_range edge1 l 1" "h < l"
  shows "js_lt edge0 edge1" and "js_sub edge1 edge0 \<noteq> PInf"
proof -
  have fin: "is_fin edge0" "is_fin edge1" using assms(1,2) by (simp_all add: in_range_def)
  show "js_lt edge0 edge1" using assms fin by (simp add: js_lt_fin in_range_def)
  have "in_range edge0 (- 1) 1" "in_range edge1 (- 1) 1"
    using assms by (simp_all add: in_range_def)
  from js_sub_range[OF this(2,1)] have "in_range (js_sub edge1 edge0) (- 2) 2"
    using is_double_small_int(2) is_double_neg[of 2] by simp
  then show "js_sub edge1 edge0 \<noteq> PInf" by (auto simp: in_range_def)
qed

lemma weight_pair:
  assumes "is_number edge0" "is_number edge1" "x \<noteq> NaN" "js_lt edge0 edge1"
      and "js_sub edge1 edge0 \<noteq> PInf"
  shows "\<exists>w a s. smoothstep edge0 edge1 x = Fin w \<and> 0 \<le> w \<and> w \<le> 1 \<and>
           js_sub (Fin 1) (Fin w) = Fin a \<and> 0 \<le> a \<and> a \<le> 1 \<and>
           js_add (Fin a) (Fin w) = Fin s \<and> \<bar>s - 1\<bar> \<le> 1 / 10 ^ 6"
proof -
  from smoothstep_t_unit[OF assms] obtain t
    where "smoothstep_t edge0 edge1 x = Fin t" "0 \<le> t" "t \<le> 1" by blast
  from smoothstep_of_unit[OF this] obtain w
    where w: "smoothstep edge0 edge1 x = Fin w" "0 \<le> w" "w \<le> 1" by blast
  from one_minus_unit[OF w(2,3)] w show ?thesis by blast
qed

lemma smoothstep_at_edge0:
  assumes "is_number edge0" "is_number edge1" "js_lt edge0 edge1"
      and "js_sub edge1 edge0 \<noteq> PInf" and "is_fin x" "val x = val edge0"
  shows "smoothstep edge0 edge1 x = Fin 0"
  using assms by (intro smoothstep_of_0 smoothstep_t_at_edge0) simp_all

lemma smoothstep_at_edge1:
  assumes "is_number edge0" "is_number edge1" "js_lt edge0 edge1"
      and "js_sub edge1 edge0 \<noteq> PInf" and "is_fin x" "val x = val edge1"
  shows "smoothstep edge0 edge1 x = Fin 1"
  using assms by (intro smoothstep_of_1 smoothstep_t_at_edge1) simp_all

lemma one_minus_0_1:
  "js_sub (Fin 1) (Fin 0) = Fin 1" "js_sub (Fin 1) (Fin 1) = Fin 0"
  using js_sub_fin[of "Fin 1" "Fin 0"] js_sub_fin_eq[of "Fin 1" "Fin 1"]
  by (simp_all add: signed_zero_def)

lemma js_add_commute: "js_add a b = js_add b a"
  by (cases a; cases b) (simp_all add: js_add_def is_inf_def Let_def add.commute)

lemma fold_push_concat:
  "fold (\<lambda>x acc. acc @ f x) xs acc0 = acc0 @ concat (map f xs)"
  by (induction xs arbitrary: acc0) simp_all

lemma weight_quads_concat:
  assumes "\<And>x. x \<in> set xs \<Longrightarrow>
             \<exists>a b. f x = [a, b, Fin 0, Fin 0] \<and> unit_weight a \<and> unit_weight b \<and>
                   near_one (js_add a b)"
  shows "length (concat (map f xs)) = 4 * length xs \<and> weight_quads (concat (map f xs))"
  using assms
proof (induction xs)
  case Nil
  show ?case by simp
next
  case (Cons x xs)
  from Cons.prems[of x] obtain a b where
    ab: "f x = [a, b, Fin 0, Fin 0]" "unit_weight a" "unit_weight b" "near_one (js_add a b)"
    by auto
  have "length (concat (map f xs)) = 4 * length xs \<and> weight_quads (concat (map f xs))"
    using Cons.prems by (intro Cons.IH) simp
  then show ?case using ab by simp
qed

lemma weight_quad:
  assumes "is_number edge0" "is_number edge1" "x \<noteq> NaN" "js_lt edge0 edge1"
      and "js_sub edge1 edge0 \<noteq> PInf"
  shows "unit_weight (smoothstep edge0 edge1 x)"
    and "unit_weight (js_sub (Fin 1) (smoothstep edge0 edge1 x))"
    and "near_one (js_add (js_sub (Fin 1) (smoothstep edge0 edge1 x)) (smoothstep edge0 edge1 x))"
    and "near_one (js_add (smoothstep edge0 edge1 x) (js_sub (Fin 1) (smoothstep edge0 edge1 x)))"
proof -
  from weight_pair[OF assms] obtain w a s where
    *: "smoothstep edge0 edge1 x = Fin w" "0 \<le> w" "w \<le> 1"
       "js_sub (Fin 1) (Fin w) = Fin a" "0 \<le> a" "a \<le> 1"
       "js_add (Fin a) (Fin w) = Fin s" "\<bar>s - 1\<bar> \<le> 1 / 10 ^ 6" by blast
  show "unit_weight (smoothstep edge0 edge1 x)" using * by simp
  show "unit_weight (js_sub (Fin 1) (smoothstep edge0 edge1 x))" using * by simp
  show "near_one (js_add (js_sub (Fin 1) (smoothstep edge0 edge1 x)) (smoothstep edge0 edge1 x))"
    using * by simp
  then show
    "near_one (js_add (smoothstep edge0 edge1 x) (js_sub (Fin 1) (smoothstep edge0 edge1 x)))"
    by (simp only: js_add_commute[of "smoothstep edge0 edge1 x"])
qed

lemma is_double_consts:
  "is_double (1 / 2)" "is_double (1 / 4)" "is_double (1 / 8)" "is_double (3 / 4)"
  "is_double (3 / 8)" "is_double (1 / 16)" "is_double (5 / 16)" "is_double (9 / 16)"
  "is_double (13 / 16)" "is_double (3 / 32)" "is_double (5 / 32)" "is_double (7 / 32)"
  "is_double (9 / 32)" "is_double (13 / 32)" "is_double (7 / 64)" "is_double (9 / 128)"
  "is_double (55 / 128)" "is_double (41 / 256)" "is_double (169 / 256)"
  "is_double (87 / 512)" "is_double (169 / 512)" "is_double (91 / 1024)"
  "is_double (421 / 1024)"
  using is_double_frac[of 1 1] is_double_frac[of 1 2] is_double_frac[of 1 3]
    is_double_frac[of 3 2] is_double_frac[of 3 3] is_double_frac[of 1 4]
    is_double_frac[of 5 4] is_double_frac[of 9 4] is_double_frac[of 13 4]
    is_double_frac[of 3 5] is_double_frac[of 5 5] is_double_frac[of 7 5]
    is_double_frac[of 9 5] is_double_frac[of 13 5] is_double_frac[of 7 6]
    is_double_frac[of 9 7] is_double_frac[of 55 7] is_double_frac[of 41 8]
    is_double_frac[of 169 8] is_double_frac[of 87 9] is_double_frac[of 169 9]
    is_double_frac[of 91 10] is_double_frac[of 421 10]
  by simp_all

lemma is_double_minus [simp]: "is_double (- d) = is_double d"
  using is_double_neg[of d] is_double_neg[of "- d"] by auto

lemma lit_bounds:
  "in_range (lit 0.2) (1 / 8) (1 / 4)" "in_range (lit (- 0.2)) (- (1 / 4)) (- (1 / 8))"
  "in_range (lit 0.15) (1 / 8) (5 / 32)" "in_range (lit 0.25) (1 / 4) (1 / 4)"
  "in_range (lit 0.8) (3 / 4) (13 / 16)" "in_range (lit (- 0.5)) (- (1 / 2)) (- (1 / 2))"
  "in_range (lit 0.1) (3 / 32) (7 / 64)" "in_range (lit 0.4) (3 / 8) (13 / 32)"
  by (rule lit_range; simp add: is_double_consts)+

lemma arm_edges:
  defines "edge0 \<equiv> js_sub (lit (- 0.2)) (lit 0.2)"
      and "edge1 \<equiv> js_add (lit (- 0.2)) (lit 0.2)"
  shows "is_number edge0" "is_number edge1" "js_lt edge0 edge1" "js_sub edge1 edge0 \<noteq> PInf"
proof -
  have r0: "in_range edge0 (- (1 / 4) - 1 / 4) (- (1 / 8) - 1 / 8)"
    unfolding edge0_def by (rule js_sub_range[OF lit_bounds(2,1)]) (simp_all add: is_double_consts)
  have r1: "in_range edge1 (- (1 / 4) + 1 / 8) (- (1 / 8) + 1 / 4)"
    unfolding edge1_def by (rule js_add_range[OF lit_bounds(2,1)]) (simp_all add: is_double_consts)
  have f: "is_fin (lit (- 0.2))" "is_fin (lit 0.2)"
    using lit_bounds(1,2) by (simp_all add: in_range_def)
  show "is_number edge0" unfolding edge0_def
    using f r0 by (intro js_sub_is_number) (simp_all add: in_range_def edge0_def)
  show "is_number edge1" unfolding edge1_def
    using f r1 by (intro js_add_is_number) (simp_all add: in_range_def edge1_def)
  have "in_range edge0 (- 1) (- (1 / 4))" "in_range edge1 (- (1 / 8)) 1"
    using r0 r1 by (simp_all add: in_range_def)
  from interval_ok[OF this] show "js_lt edge0 edge1" "js_sub edge1 edge0 \<noteq> PInf" by simp_all
qed

lemma leg_edges:
  defines "edge0 \<equiv> js_sub (lit 0.25) (lit 0.15)"
      and "edge1 \<equiv> js_add (lit 0.25) (lit 0.15)"
  shows "is_number edge0" "is_number edge1" "js_lt edge0 edge1" "js_sub edge1 edge0 \<noteq> PInf"
proof -
  have r0: "in_range edge0 (1 / 4 - 5 / 32) (1 / 4 - 1 / 8)"
    unfolding edge0_def by (rule js_sub_range[OF lit_bounds(4,3)]) (simp_all add: is_double_consts)
  have r1: "in_range edge1 (1 / 4 + 1 / 8) (1 / 4 + 5 / 32)"
    unfolding edge1_def by (rule js_add_range[OF lit_bounds(4,3)]) (simp_all add: is_double_consts)
  have f: "is_fin (lit 0.25)" "is_fin (lit 0.15)"
    using lit_bounds(3,4) by (simp_all add: in_range_def)
  show "is_number edge0" unfolding edge0_def
    using f r0 by (intro js_sub_is_number) (simp_all add: in_range_def edge0_def)
  show "is_number edge1" unfolding edge1_def
    using f r1 by (intro js_add_is_number) (simp_all add: in_range_def edge1_def)
  have "in_range edge0 (- 1) (1 / 8)" "in_range edge1 (3 / 8) 1"
    using r0 r1 by (simp_all add: in_range_def)
  from interval_ok[OF this] show "js_lt edge0 edge1" "js_sub edge1 edge0 \<noteq> PInf" by simp_all
qed

lemma body_edges:
  defines "edge0 \<equiv> lit (- 0.5)"
      and "edge1 \<equiv> js_add (lit (- 0.5)) (js_mul (lit 0.8) (lit 0.1))"
      and "edge2 \<equiv> js_add (lit (- 0.5)) (js_mul (lit 0.8) (lit 0.4))"
      and "edge3 \<equiv> js_add (lit (- 0.5)) (js_mul (lit 0.8) (lit 0.8))"
      and "edge4 \<equiv> js_add (lit (- 0.5)) (lit 0.8)"
  shows "is_number edge0 \<and> is_number edge1 \<and> is_number edge2 \<and> is_number edge3 \<and>
         is_number edge4"
    and "js_lt edge0 edge1 \<and> js_sub edge1 edge0 \<noteq> PInf"
    and "js_lt edge1 edge2 \<and> js_sub edge2 edge1 \<noteq> PInf"
    and "js_lt edge2 edge3 \<and> js_sub edge3 edge2 \<noteq> PInf"
    and "js_lt edge3 edge4 \<and> js_sub edge4 edge3 \<noteq> PInf"
proof -
  have m1: "in_range (js_mul (lit 0.8) (lit 0.1)) (3 / 4 * (3 / 32)) (13 / 16 * (7 / 64))"
    by (rule js_mul_range[OF lit_bounds(5,7)]) (simp_all add: is_double_consts)
  have m2: "in_range (js_mul (lit 0.8) (lit 0.4)) (3 / 4 * (3 / 8)) (13 / 16 * (13 / 32))"
    by (rule js_mul_range[OF lit_bounds(5,8)]) (simp_all add: is_double_consts)
  have m3: "in_range (js_mul (lit 0.8) (lit 0.8)) (3 / 4 * (3 / 4)) (13 / 16 * (13 / 16))"
    by (rule js_mul_range[OF lit_bounds(5,5)]) (simp_all add: is_double_consts)
  have r0: "in_range edge0 (- (1 / 2)) (- (1 / 2))"
    unfolding edge0_def by (rule lit_bounds)
  have r1: "in_range edge1 (- (1 / 2) + 3 / 4 * (3 / 32)) (- (1 / 2) + 13 / 16 * (7 / 64))"
    unfolding edge1_def by (rule js_add_range[OF lit_bounds(6) m1]) (simp_all add: is_double_consts)
  have r2: "in_range edge2 (- (1 / 2) + 3 / 4 * (3 / 8)) (- (1 / 2) + 13 / 16 * (13 / 32))"
    unfolding edge2_def by (rule js_add_range[OF lit_bounds(6) m2]) (simp_all add: is_double_consts)
  have r3: "in_range edge3 (- (1 / 2) + 3 / 4 * (3 / 4)) (- (1 / 2) + 13 / 16 * (13 / 16))"
    unfolding edge3_def by (rule js_add_range[OF lit_bounds(6) m3]) (simp_all add: is_double_consts)
  have r4: "in_range edge4 (- (1 / 2) + 3 / 4) (- (1 / 2) + 13 / 16)"
    unfolding edge4_def
    by (rule js_add_range[OF lit_bounds(6) lit_bounds(5)]) (simp_all add: is_double_consts)
  have f: "is_fin (lit (- 0.5))" "is_fin (lit 0.8)" "is_fin (js_mul (lit 0.8) (lit 0.1))"
    "is_fin (js_mul (lit 0.8) (lit 0.4))" "is_fin (js_mul (lit 0.8) (lit 0.8))"
    using lit_bounds(5,6) m1 m2 m3 by (simp_all add: in_range_def)
  have fe: "is_fin edge1" "is_fin edge2" "is_fin edge3" "is_fin edge4"
    using r1 r2 r3 r4 by (simp_all add: in_range_def)
  have n0: "is_number edge0" unfolding edge0_def using f(1) by (rule lit_is_number)
  have n1: "is_number edge1" using fe(1) f unfolding edge1_def by (intro js_add_is_number)
  have n2: "is_number edge2" using fe(2) f unfolding edge2_def by (intro js_add_is_number)
  have n3: "is_number edge3" using fe(3) f unfolding edge3_def by (intro js_add_is_number)
  have n4: "is_number edge4" using fe(4) f unfolding edge4_def by (intro js_add_is_number)
  show "is_number edge0 \<and> is_number edge1 \<and> is_number edge2 \<and> is_number edge3 \<and>
         is_number edge4"
    using n0 n1 n2 n3 n4 by simp
  have "in_range edge0 (- 1) (- (1 / 2))" "in_range edge1 (- (7 / 16)) 1"
    using r0 r1 by (simp_all add: in_range_def)
  from interval_ok[OF this] show "js_lt edge0 edge1 \<and> js_sub edge1 edge0 \<noteq> PInf" by simp
  have "in_range edge1 (- 1) (- (3 / 8))" "in_range edge2 (- (1 / 4)) 1"
    using r1 r2 by (simp_all add: in_range_def)
  from interval_ok[OF this] show "js_lt edge1 edge2 \<and> js_sub edge2 edge1 \<noteq> PInf" by simp
  have "in_range edge2 (- 1) (- (1 / 8))" "in_range edge3 0 1"
    using r2 r3 by (simp_all add: in_range_def)
  from interval_ok[OF this] show "js_lt edge2 edge3 \<and> js_sub edge3 edge2 \<noteq> PInf" by simp
  have "in_range edge3 (- 1) (3 / 16)" "in_range edge4 (1 / 4) 1"
    using r3 r4 by (simp_all add: in_range_def)
  from interval_ok[OF this] show "js_lt edge3 edge4 \<and> js_sub edge4 edge3 \<noteq> PInf" by simp
qed

subsection \<open>The weight loops\<close>

lemma js_mul_unit_not_NaN:
  assumes "a \<noteq> NaN" "d = Fin 1 \<or> d = Fin (- 1)"
  shows "js_mul a d \<noteq> NaN"
  using assms
  by (auto simp: js_mul_def is_inf_def is_zero_def signed_inf_def signed_zero_def Let_def)

lemma js_mul_one:
  assumes "is_number a"
  shows "js_mul a (Fin 1) = a"
  using assms
  by (cases a) (auto simp: js_mul_fin signed_zero_def is_number_def is_double_rnd)

lemma createArm_skinWeights_quads:
  assumes "direction = Fin 1 \<or> direction = Fin (- 1)" "NaN \<notin> set xs"
  shows "length (createArm_skinWeights direction xs) = 4 * length xs \<and>
         weight_quads (createArm_skinWeights direction xs)"
proof -
  define edge0 where "edge0 = js_sub (lit (- 0.2)) (lit 0.2)"
  define edge1 where "edge1 = js_add (lit (- 0.2)) (lit 0.2)"
  define w where "w px = smoothstep edge0 edge1 (js_mul px direction)" for px
  define f where "f = (\<lambda>px. [js_sub (Fin 1) (w px), w px, Fin 0, Fin 0])"
  note e = arm_edges[folded edge0_def edge1_def]
  have "createArm_skinWeights direction xs = fold (\<lambda>px acc. push_weights acc (w px)) xs []"
    unfolding createArm_skinWeights_def Let_def w_def edge0_def edge1_def by (rule refl)
  then have "createArm_skinWeights direction xs = concat (map f xs)"
    by (simp add: push_weights_def f_def fold_push_concat)
  moreover have "\<exists>a b. f x = [a, b, Fin 0, Fin 0] \<and> unit_weight a \<and> unit_weight b \<and>
                   near_one (js_add a b)" if "x \<in> set xs" for x
  proof -
    from that assms(2) have "x \<noteq> NaN" by auto
    then have "js_mul x direction \<noteq> NaN" using assms(1) by (rule js_mul_unit_not_NaN)
    from weight_quad(1-3)[OF e(1,2) this e(3,4)] show ?thesis
      by (simp add: f_def w_def)
  qed
  ultimately show ?thesis using weight_quads_concat[of xs f] by simp
qed

lemma createLeg_skinWeights_quads:
  assumes "NaN \<notin> set ys"
  shows "length (createLeg_skinWeights ys) = 4 * length ys \<and>
         weight_quads (createLeg_skinWeights ys)"
proof -
  define edge0 where "edge0 = js_sub (lit 0.25) (lit 0.15)"
  define edge1 where "edge1 = js_add (lit 0.25) (lit 0.15)"
  define w where "w y = smoothstep edge0 edge1 y" for y
  define f where "f = (\<lambda>y. [w y, js_sub (Fin 1) (w y), Fin 0, Fin 0])"
  note e = leg_edges[folded edge0_def edge1_def]
  have "createLeg_skinWeights ys =
          fold (\<lambda>y acc. acc @ [w y, js_sub (Fin 1) (w y), Fin 0, Fin 0]) ys []"
    unfolding createLeg_skinWeights_def Let_def w_def edge0_def edge1_def by (rule refl)
  then have "createLeg_skinWeights ys = concat (map f ys)"
    by (simp add: f_def fold_push_concat)
  moreover have "\<exists>a b. f y = [a, b, Fin 0, Fin 0] \<and> unit_weight a \<and> unit_weight b \<and>
                   near_one (js_add a b)" if "y \<in> set ys" for y
  proof -
    from that assms have "y \<noteq> NaN" by auto
    from weight_quad(1,2,4)[OF e(1,2) this e(3,4)] show ?thesis
      by (simp add: f_def w_def)
  qed
  ultimately show ?thesis using weight_quads_concat[of ys f] by simp
qed

lemma createBody_skinWeights_quads:
  assumes "NaN \<notin> set ys"
  shows "length (createBody_skinWeights ys) = 4 * length ys \<and>
         weight_quads (createBody_skinWeights ys)"
proof -
  define edge0 where "edge0 = lit (- 0.5)"
  define edge1 where "edge1 = js_add (lit (- 0.5)) (js_mul (lit 0.8) (lit 0.1))"
  define edge2 where "edge2 = js_add (lit (- 0.5)) (js_mul (lit 0.8) (lit 0.4))"
  define edge3 where "edge3 = js_add (lit (- 0.5)) (js_mul (lit 0.8) (lit 0.8))"
  define edge4 where "edge4 = js_add (lit (- 0.5)) (lit 0.8)"
  define w where "w y =
     (if js_lt y edge1 then smoothstep edge0 edge1 y
      else if js_lt y edge2 then smoothstep edge1 edge2 y
      else if js_lt y edge3 then smoothstep edge2 edge3 y
      else smoothstep edge3 edge4 y)" for y
  define f where "f = (\<lambda>y. [js_sub (Fin 1) (w y), w y, Fin 0, Fin 0])"
  note e = body_edges[folded edge0_def edge1_def edge2_def edge3_def edge4_def]
  have pw_if: "push_weights s (if c then x else y) =
      (if c then push_weights s x else push_weights s y)" for s c x y
    by simp
  have "createBody_skinWeights ys = fold (\<lambda>y acc. push_weights acc (w y)) ys []"
    unfolding createBody_skinWeights_def Let_def w_def pw_if
      edge0_def edge1_def edge2_def edge3_def edge4_def by (rule refl)
  then have "createBody_skinWeights ys = concat (map f ys)"
    by (simp add: push_weights_def f_def fold_push_concat)
  moreover have "\<exists>a b. f y = [a, b, Fin 0, Fin 0] \<and> unit_weight a \<and> unit_weight b \<and>
                   near_one (js_add a b)" if "y \<in> set ys" for y
  proof -
    from that assms have y: "y \<noteq> NaN" by auto
    have "unit_weight (w y) \<and> unit_weight (js_sub (Fin 1) (w y)) \<and>
          near_one (js_add (js_sub (Fin 1) (w y)) (w y))"
      unfolding w_def using e y by (simp add: weight_quad)
    then show ?thesis by (simp add: f_def)
  qed
  ultimately show ?thesis using weight_quads_concat[of ys f] by simp
qed

lemma createArm_at_edge0:
  "createArm_skinWeights (Fin 1) [js_sub (lit (- 0.2)) (lit 0.2)] = [Fin 1, Fin 0, Fin 0, Fin 0]"
proof -
  define edge0 where "edge0 = js_sub (lit (- 0.2)) (lit 0.2)"
  define edge1 where "edge1 = js_add (lit (- 0.2)) (lit 0.2)"
  note e = arm_edges[folded edge0_def edge1_def]
  have "createArm_skinWeights (Fin 1) [edge0] =
          push_weights [] (smoothstep edge0 edge1 (js_mul edge0 (Fin 1)))"
    unfolding createArm_skinWeights_def Let_def edge0_def edge1_def by simp
  also have "\<dots> = push_weights [] (Fin 0)"
    using e by (simp add: js_mul_one smoothstep_at_edge0 is_number_fin)
  finally show ?thesis unfolding edge0_def by (simp add: push_weights_def one_minus_0_1)
qed

lemma createLeg_at_edge0:
  "createLeg_skinWeights [js_sub (lit 0.25) (lit 0.15)] = [Fin 0, Fin 1, Fin 0, Fin 0]"
proof -
  define edge0 where "edge0 = js_sub (lit 0.25) (lit 0.15)"
  define edge1 where "edge1 = js_add (lit 0.25) (lit 0.15)"
  note e = leg_edges[folded edge0_def edge1_def]
  have "createLeg_skinWeights [edge0] =
          [smoothstep edge0 edge1 edge0, js_sub (Fin 1) (smoothstep edge0 edge1 edge0),
           Fin 0, Fin 0]"
    unfolding createLeg_skinWeights_def Let_def edge0_def edge1_def by simp
  also have "\<dots> = [Fin 0, Fin 1, Fin 0, Fin 0]"
    using e by (simp add: smoothstep_at_edge0 one_minus_0_1 is_number_fin)
  finally show ?thesis unfolding edge0_def .
qed

lemma createBody_at_edge0:
  "createBody_skinWeights [lit (- 0.5)] = [Fin 1, Fin 0, Fin 0, Fin 0]"
proof -
  define edge0 where "edge0 = lit (- 0.5)"
  define edge1 where "edge1 = js_add (lit (- 0.5)) (js_mul (lit 0.8) (lit 0.1))"
  note e = body_edges(1,2)[folded edge0_def edge1_def]
  have "createBody_skinWeights [edge0] = push_weights [] (smoothstep edge0 edge1 edge0)"
    using e(2) unfolding createBody_skinWeights_def Let_def edge0_def edge1_def by simp
  also have "\<dots> = push_weights [] (Fin 0)"
    using e by (simp add: smoothstep_at_edge0 is_number_fin)
  finally show ?thesis unfolding edge0_def by (simp add: push_weights_def one_minus_0_1)
qed

lemma is_double_pow2_1023: "is_double (2 ^ 1023)"
  by (rule is_doubleI[of _ 1 1023]) (simp_all add: pow2_def)

lemma smoothstep_overflow:
  "smoothstep (Fin (- (2 ^ 1023))) (Fin (2 ^ 1023)) (Fin (2 ^ 1023)) = NaN"
proof -
  have "js_sub (Fin (2 ^ 1023)) (Fin (- (2 ^ 1023))) = rnd (2 ^ 1023 + 2 ^ 1023)"
    using js_sub_fin[of "Fin (2 ^ 1023)" "Fin (- (2 ^ 1023))"] by simp
  also have "\<dots> = PInf" by (rule rnd_overflow) simp
  finally have "smoothstep_t (Fin (- (2 ^ 1023))) (Fin (2 ^ 1023)) (Fin (2 ^ 1023)) = NaN"
    by (simp add: smoothstep_t_def js_div_def is_inf_def Math_min_def Math_max_def)
  then show ?thesis by (rule smoothstep_of_NaN)
qed

subsection \<open>The degenerate interval\<close>

lemma js_sub_below:
  assumes "is_number a" "is_number b" "val a < val b"
  shows "js_sub a b = NInf \<or> (\<exists>d. js_sub a b = Fin d \<and> d < 0)"
proof -
  have fin: "is_fin a" "is_fin b" using assms by (simp_all add: is_number_fin)
  have "js_sub a b = rnd (- (val b - val a))"
    using fin assms(3) js_sub_fin[of a b] by simp
  also have "\<dots> = js_neg (rnd (val b - val a))" using assms(3) by (intro rnd_neg) simp
  also have "\<dots> = js_neg (js_sub b a)" using fin assms(3) by (simp add: js_sub_fin)
  finally show ?thesis using js_sub_gap[OF assms] by auto
qed

lemma js_div_by_zero:
  assumes "n = PInf \<or> n = NInf \<or> (\<exists>y. n = Fin y \<and> y \<noteq> 0)"
  shows "js_div n (signed_zero s) = signed_inf (negative n \<noteq> s)"
  using assms
  by (auto simp: js_div_def is_inf_def is_zero_def signed_zero_def signed_inf_def)

lemma smoothstep_t_degenerate:
  assumes "is_number e0" "is_number e1" "is_number x" "val e0 = val e1"
  shows "smoothstep_t e0 e1 x =
           (if val x = val e0 then NaN
            else if e1 = NZero \<and> e0 = Fin 0 then (if val x < 0 then Fin 1 else Fin 0)
            else if val x < val e0 then Fin 0 else Fin 1)"
proof -
  have fin: "is_fin e0" "is_fin e1" "is_fin x" using assms by (simp_all add: is_number_fin)
  have d: "js_sub e1 e0 = signed_zero (e1 = NZero \<and> e0 = Fin 0)"
    using fin assms(4) by (intro js_sub_fin_eq) simp_all
  consider "val x = val e0" | "val x < val e0" | "val e0 < val x" by linarith
  then show ?thesis
  proof cases
    case 1
    then have "js_sub x e0 = signed_zero (x = NZero \<and> e0 = Fin 0)"
      using fin by (intro js_sub_fin_eq) simp_all
    then have "js_div (js_sub x e0) (js_sub e1 e0) = NaN"
      by (simp add: d js_div_def is_inf_def is_zero_def signed_zero_def)
    then show ?thesis using 1 by (simp add: smoothstep_t_def clamp_cases)
  next
    case 2
    from js_sub_below[OF assms(3,1) 2]
    have n: "js_sub x e0 = NInf \<or> (\<exists>y. js_sub x e0 = Fin y \<and> y < 0)" .
    then have "js_div (js_sub x e0) (js_sub e1 e0) =
                 signed_inf (negative (js_sub x e0) \<noteq> (e1 = NZero \<and> e0 = Fin 0))"
      unfolding d by (intro js_div_by_zero) auto
    moreover have "negative (js_sub x e0)" using n by auto
    ultimately have "js_div (js_sub x e0) (js_sub e1 e0) =
                       (if e1 = NZero \<and> e0 = Fin 0 then PInf else NInf)"
      by (simp add: signed_inf_def)
    then show ?thesis using 2 by (auto simp: smoothstep_t_def clamp_cases)
  next
    case 3
    from js_sub_gap[OF assms(1,3) 3]
    have n: "js_sub x e0 = PInf \<or> (\<exists>y. js_sub x e0 = Fin y \<and> 0 < y)" .
    then have "js_div (js_sub x e0) (js_sub e1 e0) =
                 signed_inf (negative (js_sub x e0) \<noteq> (e1 = NZero \<and> e0 = Fin 0))"
      unfolding d by (intro js_div_by_zero) auto
    moreover have "\<not> negative (js_sub x e0)" using n by auto
    ultimately have "js_div (js_sub x e0) (js_sub e1 e0) =
                       (if e1 = NZero \<and> e0 = Fin 0 then NInf else PInf)"
      by (simp add: signed_inf_def)
    then show ?thesis using 3 by (auto simp: smoothstep_t_def clamp_cases)
  qed
qed

lemma smoothstep_of_t_special:
  assumes "smoothstep_t e0 e1 x = NaN \<or> smoothstep_t e0 e1 x = Fin 0 \<or>
           smoothstep_t e0 e1 x = Fin 1"
  shows "smoothstep e0 e1 x = smoothstep_t e0 e1 x"
  using assms smoothstep_of_NaN[of e0 e1 x] smoothstep_of_0[of e0 e1 x]
    smoothstep_of_1[of e0 e1 x] by auto

lemma smoothstep_degenerate_eq:
  assumes "is_number e0" "is_number e1" "is_number x" "val e0 = val e1"
  shows "smoothstep e0 e1 x = smoothstep_t e0 e1 x"
  by (rule smoothstep_of_t_special) (simp add: smoothstep_t_degenerate[OF assms])

lemma push_weights_NaN: "push_weights skinWeights NaN = skinWeights @ [NaN, NaN, Fin 0, Fin 0]"
  by (simp add: push_weights_def js_sub_def js_add_def)

subsection \<open>The claims\<close>

lemma rnd_half_quarter [simp]: "rnd (1 / 2) = Fin (1 / 2)" "rnd (1 / 4) = Fin (1 / 4)"
  using is_double_consts(1,2) by (simp_all add: is_double_def)

lemma smoothstep_half: "smoothstep (Fin 0) (Fin 1) (Fin (1 / 2)) = Fin (1 / 2)"
  by (simp add: smoothstep_def smoothstep_t_def js_sub_def js_add_def js_mul_def js_div_def
      is_inf_def is_zero_def clamp_cases Let_def)

text \<open>
  Claim C1, as the code has it. Let \<open>edge0 < edge1\<close> be finite numbers whose difference
  \<open>edge1 - edge0\<close> does not overflow to \<open>Infinity\<close>, and \<open>v\<close> any number but \<open>NaN\<close>. Then
  \<open>smoothstep\<close> returns a finite weight \<open>w\<close> of \<open>[0, 1]\<close>, \<open>1 - w\<close> is a number of \<open>[0, 1]\<close>,
  the JavaScript sum \<open>(1 - w) + w\<close> is within \<open>1e-6\<close> of 1, and the four slots pushed are
  \<open>1 - w, w, 0, 0\<close>; for \<open>v == edge0\<close> they are \<open>1, 0, 0, 0\<close> and for \<open>v == edge1\<close> they
  are \<open>0, 1, 0, 0\<close>. On vertex coordinates other than \<open>NaN\<close> each of the loops of \<open>createArm\<close>,
  \<open>createLeg\<close> and \<open>createBody\<close> stores four slots per vertex: two weights of \<open>[0, 1]\<close>
  that add up to 1 within \<open>1e-6\<close>, then two zeros. \<open>createArm\<close> and \<open>createBody\<close> store
  \<open>1, 0, 0, 0\<close> for a vertex at their first edge; \<open>createLeg\<close> stores the pair in the
  other order, \<open>0, 1, 0, 0\<close> at its \<open>edge0\<close>.
\<close>

theorem smoothstep_weight_pair:
  assumes "is_number edge0" and "is_number edge1" and "js_lt edge0 edge1"
      and "js_sub edge1 edge0 \<noteq> PInf" and "v \<noteq> NaN"
      and "direction = Fin 1 \<or> direction = Fin (- 1)" and "NaN \<notin> set positions"
  shows "(\<exists>w a s. smoothstep edge0 edge1 v = Fin w \<and> 0 \<le> w \<and> w \<le> 1 \<and>
              js_sub (Fin 1) (Fin w) = Fin a \<and> 0 \<le> a \<and> a \<le> 1 \<and>
              js_add (Fin a) (Fin w) = Fin s \<and> \<bar>s - 1\<bar> \<le> 1 / 10 ^ 6 \<and>
              push_weights skinWeights (Fin w) = skinWeights @ [Fin a, Fin w, Fin 0, Fin 0]) \<and>
         (is_fin v \<and> val v = val edge0 \<longrightarrow>
            push_weights skinWeights (smoothstep edge0 edge1 v) =
              skinWeights @ [Fin 1, Fin 0, Fin 0, Fin 0]) \<and>
         (is_fin v \<and> val v = val edge1 \<longrightarrow>
            push_weights skinWeights (smoothstep edge0 edge1 v) =
              skinWeights @ [Fin 0, Fin 1, Fin 0, Fin 0]) \<and>
         length (createArm_skinWeights direction positions) = 4 * length positions \<and>
         weight_quads (createArm_skinWeights direction positions) \<and>
         length (createLeg_skinWeights positions) = 4 * length positions \<and>
         weight_quads (createLeg_skinWeights positions) \<and>
         length (createBody_skinWeights positions) = 4 * length positions \<and>
         weight_quads (createBody_skinWeights positions) \<and>
         createArm_skinWeights (Fin 1) [js_sub (lit (- 0.2)) (lit 0.2)] =
           [Fin 1, Fin 0, Fin 0, Fin 0] \<and>
         createBody_skinWeights [lit (- 0.5)] = [Fin 1, Fin 0, Fin 0, Fin 0] \<and>
         createLeg_skinWeights [js_sub (lit 0.25) (lit 0.15)] = [Fin 0, Fin 1, Fin 0, Fin 0]"
proof -
  from weight_pair[OF assms(1,2,5,3,4)] obtain w a s where
    *: "smoothstep edge0 edge1 v = Fin w" "0 \<le> w" "w \<le> 1"
       "js_sub (Fin 1) (Fin w) = Fin a" "0 \<le> a" "a \<le> 1"
       "js_add (Fin a) (Fin w) = Fin s" "\<bar>s - 1\<bar> \<le> 1 / 10 ^ 6" by blast
  have "push_weights skinWeights (Fin w) = skinWeights @ [Fin a, Fin w, Fin 0, Fin 0]"
    by (simp add: push_weights_def *(4))
  with * have pair: "\<exists>w a s. smoothstep edge0 edge1 v = Fin w \<and> 0 \<le> w \<and> w \<le> 1 \<and>
              js_sub (Fin 1) (Fin w) = Fin a \<and> 0 \<le> a \<and> a \<le> 1 \<and>
              js_add (Fin a) (Fin w) = Fin s \<and> \<bar>s - 1\<bar> \<le> 1 / 10 ^ 6 \<and>
              push_weights skinWeights (Fin w) = skinWeights @ [Fin a, Fin w, Fin 0, Fin 0]"
    by blast
  have lo: "is_fin v \<and> val v = val edge0 \<longrightarrow>
              push_weights skinWeights (smoothstep edge0 edge1 v) =
                skinWeights @ [Fin 1, Fin 0, Fin 0, Fin 0]"
    by (simp add: smoothstep_at_edge0[OF assms(1-4)] push_weights_def one_minus_0_1)
  have hi: "is_fin v \<and> val v = val edge1 \<longrightarrow>
              push_weights skinWeights (smoothstep edge0 edge1 v) =
                skinWeights @ [Fin 0, Fin 1, Fin 0, Fin 0]"
    by (simp add: smoothstep_at_edge1[OF assms(1-4)] push_weights_def one_minus_0_1)
  note arm = createArm_skinWeights_quads[OF assms(6,7)]
  note leg = createLeg_skinWeights_quads[OF assms(7)]
  note body = createBody_skinWeights_quads[OF assms(7)]
  show ?thesis
    using arm leg body createArm_at_edge0 createBody_at_edge0 createLeg_at_edge0
    by (intro conjI pair lo hi) (simp_all only:)
qed

theorem smoothstep_weight_pair_witness:
  "is_number (Fin 0) \<and> is_number (Fin 1) \<and> js_lt (Fin 0) (Fin 1) \<and>
   js_sub (Fin 1) (Fin 0) \<noteq> PInf \<and>
   smoothstep (Fin 0) (Fin 1) (Fin (1 / 2)) = Fin (1 / 2) \<and>
   js_sub (Fin 1) (Fin (1 / 2)) = Fin (1 / 2) \<and>
   push_weights [] (smoothstep (Fin 0) (Fin 1) NZero) = [Fin 1, Fin 0, Fin 0, Fin 0] \<and>
   push_weights [] (smoothstep (Fin 0) (Fin 1) (Fin 1)) = [Fin 0, Fin 1, Fin 0, Fin 0] \<and>
   length (createArm_skinWeights (Fin (- 1)) [Fin 0, PInf]) = 8 \<and>
   weight_quads (createArm_skinWeights (Fin (- 1)) [Fin 0, PInf]) \<and>
   length (createLeg_skinWeights [Fin 0, PInf]) = 8 \<and>
   weight_quads (createLeg_skinWeights [Fin 0, PInf]) \<and>
   length (createBody_skinWeights [Fin 0, PInf]) = 8 \<and>
   weight_quads (createBody_skinWeights [Fin 0, PInf])"
proof -
  have h: "is_number (Fin 0)" "is_number (Fin 1)" "js_lt (Fin 0) (Fin 1)"
    "js_sub (Fin 1) (Fin 0) \<noteq> PInf"
    by (simp_all add: is_double_small_int js_lt_def one_minus_0_1)
  have g: "Fin (- 1) = Fin 1 \<or> Fin (- 1) = Fin (- 1)" "NaN \<notin> set [Fin 0, PInf]"
    by simp_all
  have "js_sub (Fin 1) (Fin (1 / 2)) = Fin (1 / 2)"
    using js_sub_fin[of "Fin 1" "Fin (1 / 2)"] by simp
  then show ?thesis
    using h smoothstep_half
      smoothstep_weight_pair[OF h _ g, of "Fin (1 / 2)" "[]"]
      smoothstep_weight_pair[OF h _ g, of NZero "[]"]
      smoothstep_weight_pair[OF h _ g, of "Fin 1" "[]"]
    by simp
qed

text \<open>
  The claim as the specification states it fails. For \<open>edge0 = -2 ^ 1023\<close> and
  \<open>edge1 = v = 2 ^ 1023\<close>, finite numbers with \<open>edge0 < edge1\<close>, both differences overflow
  to \<open>Infinity\<close>, their quotient is \<open>NaN\<close> and the pair stored is \<open>(NaN, NaN)\<close>, not
  \<open>(0, 1)\<close>; the axis value \<open>NaN\<close> gives the pair \<open>(NaN, NaN)\<close> on every interval. And at
  \<open>v = edge0\<close> the loop of \<open>createLeg\<close> stores the pair \<open>(0, 1)\<close>, not \<open>(1, 0)\<close>.
\<close>

theorem smoothstep_weight_pair_counterexample:
  "is_number (Fin (- (2 ^ 1023))) \<and> is_number (Fin (2 ^ 1023)) \<and>
   js_lt (Fin (- (2 ^ 1023))) (Fin (2 ^ 1023)) \<and>
   push_weights [] (smoothstep (Fin (- (2 ^ 1023))) (Fin (2 ^ 1023)) (Fin (2 ^ 1023))) =
     [NaN, NaN, Fin 0, Fin 0] \<and>
   push_weights [] (smoothstep (Fin 0) (Fin 1) NaN) = [NaN, NaN, Fin 0, Fin 0] \<and>
   createLeg_skinWeights [js_sub (lit 0.25) (lit 0.15)] = [Fin 0, Fin 1, Fin 0, Fin 0]"
proof -
  have "js_lt (Fin (- (2 ^ 1023))) (Fin (2 ^ 1023))" by (simp add: js_lt_def)
  moreover have "smoothstep (Fin 0) (Fin 1) NaN = NaN"
    by (rule smoothstep_of_NaN)
      (simp add: smoothstep_t_def js_sub_def js_add_def js_div_def Math_min_def Math_max_def)
  ultimately show ?thesis
    using is_double_pow2_1023 createLeg_at_edge0
    by (simp only: smoothstep_overflow push_weights_NaN is_number_Fin is_double_minus
        append_Nil simp_thms)
qed

text \<open>
  Claim C2, as the code has it. \<open>smoothstep\<close> has no guard for a degenerate interval
  and reports nothing: it divides by zero. For finite numbers \<open>edge0 == edge1\<close> and a
  finite \<open>x\<close> the divisor \<open>edge1 - edge0\<close> is a zero, \<open>-0\<close> exactly when \<open>edge1\<close> is \<open>-0\<close> and
  \<open>edge0\<close> is \<open>+0\<close>. When \<open>x == edge0\<close> the quotient is \<open>0 / 0\<close>, so \<open>t\<close> and the result are
  \<open>NaN\<close> and the weight pair pushed is \<open>(NaN, NaN)\<close>. Otherwise the quotient is an
  infinity: with the divisor \<open>+0\<close>, \<open>t\<close> and the result are 0 when \<open>x < edge0\<close> and 1 when
  \<open>x > edge0\<close>; with the divisor \<open>-0\<close> they are 1 when \<open>x < 0\<close> and 0 when \<open>x > 0\<close>. Nothing
  is thrown: the function always returns.
\<close>

theorem smoothstep_degenerate:
  assumes "is_number edge0" and "is_number edge1" and "is_number x"
      and "val edge0 = val edge1"
  shows "smoothstep_t edge0 edge1 x =
           (if val x = val edge0 then NaN
            else if edge1 = NZero \<and> edge0 = Fin 0 then (if val x < 0 then Fin 1 else Fin 0)
            else if val x < val edge0 then Fin 0 else Fin 1) \<and>
         smoothstep edge0 edge1 x = smoothstep_t edge0 edge1 x \<and>
         push_weights skinWeights (smoothstep edge0 edge1 edge0) =
           skinWeights @ [NaN, NaN, Fin 0, Fin 0]"
proof -
  have "smoothstep edge0 edge1 edge0 = NaN"
    using assms by (simp add: smoothstep_degenerate_eq smoothstep_t_degenerate)
  then show ?thesis
    using smoothstep_t_degenerate[OF assms] smoothstep_degenerate_eq[OF assms]
    by (simp only: push_weights_NaN simp_thms)
qed

theorem smoothstep_degenerate_witness:
  "is_number (Fin 0) \<and> is_number NZero \<and> is_number (Fin 1) \<and> val (Fin 0) = val NZero \<and>
   smoothstep_t (Fin 0) NZero (Fin 1) = Fin 0 \<and> smoothstep (Fin 0) NZero (Fin 1) = Fin 0 \<and>
   push_weights [] (smoothstep (Fin 0) NZero (Fin 0)) = [NaN, NaN, Fin 0, Fin 0]"
proof -
  have h: "is_number (Fin 0)" "is_number NZero" "is_number (Fin 1)" "val (Fin 0) = val NZero"
    by (simp_all add: is_double_small_int)
  from smoothstep_degenerate[OF h, of "[]"] h show ?thesis by simp
qed

text \<open>
  The claim as the specification states it fails: with \<open>edge0 = edge1 = 0\<close>, \<open>t\<close> is 1
  (not 0) at \<open>x = 1\<close>, and at \<open>x = 0\<close> the pair is \<open>(NaN, NaN)\<close>.
\<close>

theorem smoothstep_degenerate_counterexample:
  "smoothstep_t (Fin 0) (Fin 0) (Fin 1) = Fin 1 \<and>
   push_weights [] (smoothstep (Fin 0) (Fin 0) (Fin 0)) = [NaN, NaN, Fin 0, Fin 0]"
proof -
  have h: "is_number (Fin 0)" "is_number (Fin 1)" "val (Fin 0) = val (Fin 0)"
    by (simp_all add: is_double_small_int)
  have "smoothstep (Fin 0) (Fin 0) (Fin 0) = NaN"
    using smoothstep_t_degenerate[OF h(1,1,1,3)] smoothstep_degenerate_eq[OF h(1,1,1,3)] by simp
  moreover have "smoothstep_t (Fin 0) (Fin 0) (Fin 1) = Fin 1"
    using smoothstep_t_degenerate[OF h(1,1,2,3)] by simp
  ultimately show ?thesis by (simp add: push_weights_NaN)
qed

section \<open>Properties of the skeleton\<close>

lemma addBones_eq:
  "addBones bones bs = ([length bones ..< length bones + length bs], bones @ bs)"
proof (induction bs arbitrary: bones)
  case Nil
  then show ?case by simp
next
  case (Cons b bs)
  then show ?case by (simp add: addBone_def upt_rec)
qed

text \<open>
  Claim C7, as the code has it. \<open>addBone\<close> returns the number of bones added before
  (the insertion order), a sequence of additions returns consecutive indices, and the
  bone stays at its index under every later addition. \<open>addBone\<close> has no check of the
  name and cannot fail: adding a bone always succeeds and raises by one the number of
  bones that carry its name.
\<close>

theorem addBone_insertion_order:
  "addBone bones b = (length bones, bones @ [b]) \<and>
   fst (addBones bones bs) = [length bones ..< length bones + length bs] \<and>
   snd (addBones (snd (addBone bones b)) bs) ! fst (addBone bones b) = b \<and>
   length (filter (\<lambda>c. bone_name c = bone_name b) (snd (addBone bones b))) =
     Suc (length (filter (\<lambda>c. bone_name c = bone_name b) bones))"
  by (simp add: addBones_eq addBone_def nth_append)

text \<open>
  The claim as the specification states it fails: adding a second bone named \<open>hips\<close>
  returns index 1 and leaves a skeleton with two bones of that name.
\<close>

theorem addBone_duplicate_counterexample:
  "addBone [\<lparr>bone_name = ''hips'', bone_position = (Fin 0, lit (- 0.3), Fin 0)\<rparr>]
           \<lparr>bone_name = ''hips'', bone_position = (Fin 0, lit (- 0.3), Fin 0)\<rparr> =
     (1, [\<lparr>bone_name = ''hips'', bone_position = (Fin 0, lit (- 0.3), Fin 0)\<rparr>,
          \<lparr>bone_name = ''hips'', bone_position = (Fin 0, lit (- 0.3), Fin 0)\<rparr>])"
  by (simp add: addBone_def)

section \<open>Properties of the scene composition\<close>

lemma build_scene:
  fixes p :: "('g, 'm, 'v) part" and cs :: "('g, 'm, 'v) part list"
  shows "fst (build p meshes) = scene_of p"
  and "fst (build_children cs grp meshes) =
     Object3D (obj_kind grp) (obj_name grp) (obj_children grp @ map scene_of cs)"
proof (induction p meshes and cs grp meshes rule: build_build_children.induct)
  case (1 n g m p cs meshes)
  then show ?case by (simp add: add_def enableBone_def Let_def)
next
  case (2 grp meshes)
  then show ?case by simp
next
  case (3 child cs grp meshes)
  obtain childGroup meshes1 where b: "build child meshes = (childGroup, meshes1)"
    by (cases "build child meshes")
  with 3(1) have cg: "childGroup = scene_of child" by simp
  from 3(2)[OF refl b[symmetric]] b cg show ?case
    by (simp add: add_def)
qed

lemma count_concat_ge:
  assumes "x \<in> set xs" "k \<le> count_list (f x) a"
  shows "k \<le> count_list (concat (map f xs)) a"
  using assms by (induction xs) auto

lemma scene_of_names:
  "q \<in> set (parts_of p) \<Longrightarrow> 2 \<le> count_list (node_names (scene_of p)) (part_name q)"
proof (induction p arbitrary: q rule: parts_of.induct)
  case (1 n g m p cs)
  show ?case
  proof (cases "q = Part n g m p cs")
    case True
    then show ?thesis by (simp add: node_names_def)
  next
    case False
    with 1(2) obtain c where c: "c \<in> set cs" "q \<in> set (parts_of c)" by auto
    from 1(1)[OF c] have "2 \<le> count_list (map obj_name (scene_nodes (scene_of c))) (part_name q)"
      by (simp add: node_names_def)
    then have "2 \<le> count_list (concat (map (\<lambda>c. map obj_name (scene_nodes (scene_of c))) cs)) (part_name q)"
      using c(1) count_concat_ge by fast
    then show ?thesis
      by (simp add: node_names_def map_concat comp_def)
  qed
qed

lemma distinct_count_le_1: "distinct xs \<Longrightarrow> count_list xs a \<le> 1"
  by (induction xs) (auto simp: count_list_0_iff)

lemma parts_of_self: "p \<in> set (parts_of p)"
  by (cases p) simp

text \<open>
  Claim C9, as the code has it. The group built for a part carries the part's name, and
  so does the mesh that is its first child; hence in the node list of the composed scene
  the name of every part occurs at least twice, and the names of the node list are never
  pairwise distinct.
\<close>

theorem part_names_shared:
  "obj_kind (fst (build p meshes)) = GroupK \<and>
   obj_name (fst (build p meshes)) = part_name p \<and>
   (\<exists>rest. obj_children (fst (build p meshes)) =
             Object3D SkinnedMeshK (part_name p) [] # rest) \<and>
   (\<forall>q \<in> set (parts_of p).
      2 \<le> count_list (node_names (fst (build p meshes))) (part_name q)) \<and>
   \<not> distinct (node_names (fst (build p meshes)))"
proof -
  have shape: "obj_kind (scene_of p) = GroupK \<and> obj_name (scene_of p) = part_name p \<and>
      (\<exists>rest. obj_children (scene_of p) = Object3D SkinnedMeshK (part_name p) [] # rest)"
    by (cases p) simp
  have counts: "\<forall>q \<in> set (parts_of p). 2 \<le> count_list (node_names (scene_of p)) (part_name q)"
    using scene_of_names by blast
  then have "2 \<le> count_list (node_names (scene_of p)) (part_name p)"
    using parts_of_self by blast
  then have "\<not> distinct (node_names (scene_of p))"
    using distinct_count_le_1[of "node_names (scene_of p)" "part_name p"] by auto
  with shape counts show ?thesis
    by (simp add: build_scene)
qed

theorem part_names_shared_witness:
  "Part ''head'' () () () [] \<in> set (parts_of program_parts) \<and>
   2 \<le> count_list (node_names (fst (build program_parts []))) ''head'' \<and>
   \<not> distinct (node_names (fst (build program_parts [])))"
proof -
  have h: "Part ''head'' () () () [] \<in> set (parts_of program_parts)"
    by (simp add: program_parts_def leaf_part_def)
  from part_names_shared[of program_parts "[]"] h show ?thesis
    by fastforce
qed

text \<open>
  The claim as the specification states it fails on the program's own scene: its node
  names are not distinct, and \<open>head\<close> names three nodes (the group, the mesh and the
  bone).
\<close>

theorem node_names_not_unique_counterexample:
  "\<not> distinct (node_names program_model) \<and>
   count_list (node_names program_model) ''head'' = 3"
  by (simp add: program_model_def program_parts_def leaf_part_def node_names_def add_def
      enableBone_def Let_def program_hipsBone_def arm_bones_def leg_bones_def bone_obj_def)

section \<open>Properties of the head\<close>

subsection \<open>The loops in closed form\<close>


lemma region_count_majority:
  "(2 \<le> region_count vertexIndices i0 i1 i2) = has_majority vertexIndices i0 i1 i2"
  by (simp add: region_count_def has_majority_def carries_def array_includes_def
      split: option.splits)





lemma triangle_group_majority:
  "(triangle_group vs i0 i1 i2 = GROUP_MOUTH) = has_majority (mouthVertexIndices vs) i0 i1 i2"
  "(triangle_group vs i0 i1 i2 = GROUP_LEFT_EYE) =
     (\<not> has_majority (mouthVertexIndices vs) i0 i1 i2 \<and>
      has_majority (leftEyeVertexIndices vs) i0 i1 i2)"
  "(triangle_group vs i0 i1 i2 = GROUP_RIGHT_EYE) =
     (\<not> has_majority (mouthVertexIndices vs) i0 i1 i2 \<and>
      \<not> has_majority (leftEyeVertexIndices vs) i0 i1 i2 \<and>
      has_majority (rightEyeVertexIndices vs) i0 i1 i2)"
  "(triangle_group vs i0 i1 i2 = GROUP_FACE) =
     (\<not> has_majority (mouthVertexIndices vs) i0 i1 i2 \<and>
      \<not> has_majority (leftEyeVertexIndices vs) i0 i1 i2 \<and>
      \<not> has_majority (rightEyeVertexIndices vs) i0 i1 i2)"
  by (simp_all add: triangle_group_def Let_def region_count_majority)



lemma classify_step_fields:
  "mouthVertexIndices (classify_step pos uv i s) =
     mouthVertexIndices s @ (if in_mouth (pos ! i) then [i] else []) \<and>
   leftEyeVertexIndices (classify_step pos uv i s) =
     leftEyeVertexIndices s @
       (if \<not> in_mouth (pos ! i) \<and> in_left_eye (uv_get uv i) then [i] else []) \<and>
   rightEyeVertexIndices (classify_step pos uv i s) =
     rightEyeVertexIndices s @
       (if \<not> in_mouth (pos ! i) \<and> \<not> in_left_eye (uv_get uv i) \<and>
           in_right_eye (uv_get uv i) then [i] else [])"
  by (simp add: classify_step_def)

lemma fold_classify_step:
  "fold (classify_step pos uv) is s =
     \<lparr>mouthVertexIndices = mouthVertexIndices s @ filter (\<lambda>i. in_mouth (pos ! i)) is,
      leftEyeVertexIndices = leftEyeVertexIndices s @
        filter (\<lambda>i. \<not> in_mouth (pos ! i) \<and> in_left_eye (uv_get uv i)) is,
      rightEyeVertexIndices = rightEyeVertexIndices s @
        filter (\<lambda>i. \<not> in_mouth (pos ! i) \<and> \<not> in_left_eye (uv_get uv i) \<and>
                    in_right_eye (uv_get uv i)) is\<rparr>"
proof (induction "is" arbitrary: s)
  case Nil
  show ?case by simp
next
  case (Cons i "is")
  have "fold (classify_step pos uv) (i # is) s =
          fold (classify_step pos uv) is (classify_step pos uv i s)"
    by simp
  also note Cons.IH
  finally show ?case
    by (simp add: classify_step_fields)
qed

lemma classifyVertices_filter:
  "classifyVertices pos uv =
     \<lparr>mouthVertexIndices = filter (\<lambda>i. in_mouth (pos ! i)) [0..<length pos],
      leftEyeVertexIndices =
        filter (\<lambda>i. \<not> in_mouth (pos ! i) \<and> in_left_eye (uv_get uv i)) [0..<length pos],
      rightEyeVertexIndices =
        filter (\<lambda>i. \<not> in_mouth (pos ! i) \<and> \<not> in_left_eye (uv_get uv i) \<and>
                    in_right_eye (uv_get uv i)) [0..<length pos]\<rparr>"
  by (simp add: classifyVertices_def fold_classify_step)

lemma majority_exclusive:
  assumes "set A \<inter> set B = {}"
  shows "\<not> (has_majority A i0 i1 i2 \<and> has_majority B i0 i1 i2)"
proof -
  have "\<not> (carries A i \<and> carries B i)" for i
    using assms by (auto simp: carries_def split: option.splits)
  then show ?thesis
    unfolding has_majority_def by blast
qed

lemma classifyVertices_disjoint:
  "set (mouthVertexIndices (classifyVertices pos uv)) \<inter>
     set (leftEyeVertexIndices (classifyVertices pos uv)) = {}"
  "set (mouthVertexIndices (classifyVertices pos uv)) \<inter>
     set (rightEyeVertexIndices (classifyVertices pos uv)) = {}"
  "set (leftEyeVertexIndices (classifyVertices pos uv)) \<inter>
     set (rightEyeVertexIndices (classifyVertices pos uv)) = {}"
  by (auto simp: classifyVertices_filter)






subsection \<open>Majority vote\<close>



subsection \<open>Partition\<close>



subsection \<open>Exclusive vertex regions\<close>

text \<open>
  The comparisons of the vertex classification with their decimal literals, on
  coordinates that a separating double tells from the literal.
\<close>

lemma js_lt_NaN [simp]: "js_lt a NaN = False" "js_lt NaN b = False"
  by (simp_all add: js_lt_def)

lemma head_lit_bounds:
  "in_range (lit (- 0.1)) (- (1 / 8)) (- (1 / 16))"
  "in_range (lit (- 0.3)) (- (5 / 16)) (- (9 / 32))"
  "in_range (lit 0.1) (3 / 32) (7 / 64)"
  "in_range (lit 0.15) (1 / 8) (5 / 32)"
  "in_range (lit 0.4) (3 / 8) (13 / 32)"
  "in_range (lit 0.5) (1 / 2) (1 / 2)"
  "in_range (lit 0.05) (3 / 64) (7 / 128)"
  "in_range (lit 0.6) (19 / 32) (5 / 8)"
  using is_double_frac[of 3 6] is_double_frac[of 7 7] is_double_frac[of 19 5]
    is_double_frac[of 5 3]
  by (intro lit_range; simp add: is_double_consts)+

lemma js_lt_lit:
  "in_range (lit c) lo hi \<Longrightarrow> y < lo \<Longrightarrow> js_lt (Fin y) (lit c)"
  "in_range (lit c) lo hi \<Longrightarrow> hi < y \<Longrightarrow> js_lt (lit c) (Fin y)"
  "in_range (lit c) lo hi \<Longrightarrow> hi \<le> y \<Longrightarrow> \<not> js_lt (Fin y) (lit c)"
  "in_range (lit c) lo hi \<Longrightarrow> y \<le> lo \<Longrightarrow> \<not> js_lt (lit c) (Fin y)"
  by (simp_all add: in_range_def js_lt_fin)

lemma region_examples:
  "in_mouth (Fin 0, Fin (- (1 / 4)), Fin (1 / 4))"
  "\<not> in_mouth (Fin (1 / 8), Fin (1 / 8), Fin (1 / 4))"
  "\<not> in_mouth (Fin (- (1 / 8)), Fin (1 / 8), Fin (1 / 4))"
  "\<not> in_mouth (Fin 0, Fin (1 / 2), Fin 0)"
  "in_left_eye (Fin (7 / 16), Fin (1 / 16))"
  "\<not> in_left_eye (Fin (9 / 16), Fin (1 / 16))"
  "in_right_eye (Fin (9 / 16), Fin (1 / 16))"
  "\<not> in_left_eye (NaN, NaN)" "\<not> in_right_eye (NaN, NaN)"
proof -
  note b = head_lit_bounds
  show "in_mouth (Fin 0, Fin (- (1 / 4)), Fin (1 / 4))"
    unfolding in_mouth_def prod.case Math_abs.simps
    by (intro conjI js_lt_lit(1)[OF b(1)] js_lt_lit(2)[OF b(2)] js_lt_lit(2)[OF b(3)]
        js_lt_lit(1)[OF b(4)]) simp_all
  show "\<not> in_mouth (Fin (1 / 8), Fin (1 / 8), Fin (1 / 4))"
    unfolding in_mouth_def prod.case using js_lt_lit(3)[OF b(1), of "1 / 8"] by simp
  show "\<not> in_mouth (Fin (- (1 / 8)), Fin (1 / 8), Fin (1 / 4))"
    unfolding in_mouth_def prod.case using js_lt_lit(3)[OF b(1), of "1 / 8"] by simp
  show "\<not> in_mouth (Fin 0, Fin (1 / 2), Fin 0)"
    unfolding in_mouth_def prod.case using js_lt_lit(3)[OF b(1), of "1 / 2"] by simp
  show "in_left_eye (Fin (7 / 16), Fin (1 / 16))"
    unfolding in_left_eye_def prod.case
    by (intro conjI js_lt_lit(2)[OF b(5)] js_lt_lit(1)[OF b(6)] js_lt_lit(2)[OF b(7)]
        js_lt_lit(1)[OF b(3)]) simp_all
  show "\<not> in_left_eye (Fin (9 / 16), Fin (1 / 16))"
    unfolding in_left_eye_def prod.case using js_lt_lit(3)[OF b(6), of "9 / 16"] by simp
  show "in_right_eye (Fin (9 / 16), Fin (1 / 16))"
    unfolding in_right_eye_def prod.case
    by (intro conjI js_lt_lit(2)[OF b(6)] js_lt_lit(1)[OF b(8)] js_lt_lit(2)[OF b(7)]
        js_lt_lit(1)[OF b(3)]) simp_all
  show "\<not> in_left_eye (NaN, NaN)" "\<not> in_right_eye (NaN, NaN)"
    by (simp_all add: in_left_eye_def in_right_eye_def)
qed

text \<open>
  Claim C10. The three vertex lists that \<open>createHead\<close> computes are pairwise disjoint
  and without repetition; so no triangle has a majority in two regions, and each
  region's group holds exactly the triangles in which that region reaches two corners:
  the priority order never decides.
\<close>

theorem vertex_regions_exclusive:
  "(let vs = classifyVertices pos uv;
        M = mouthVertexIndices vs; L = leftEyeVertexIndices vs; R = rightEyeVertexIndices vs
    in set M \<inter> set L = {} \<and> set M \<inter> set R = {} \<and> set L \<inter> set R = {} \<and>
       distinct M \<and> distinct L \<and> distinct R \<and>
       \<not> (2 \<le> region_count M i0 i1 i2 \<and> 2 \<le> region_count L i0 i1 i2) \<and>
       \<not> (2 \<le> region_count M i0 i1 i2 \<and> 2 \<le> region_count R i0 i1 i2) \<and>
       \<not> (2 \<le> region_count L i0 i1 i2 \<and> 2 \<le> region_count R i0 i1 i2) \<and>
       (triangle_group vs i0 i1 i2 = GROUP_MOUTH) = (2 \<le> region_count M i0 i1 i2) \<and>
       (triangle_group vs i0 i1 i2 = GROUP_LEFT_EYE) = (2 \<le> region_count L i0 i1 i2) \<and>
       (triangle_group vs i0 i1 i2 = GROUP_RIGHT_EYE) = (2 \<le> region_count R i0 i1 i2))"
proof -
  define vs where "vs = classifyVertices pos uv"
  note d = classifyVertices_disjoint[of pos uv, folded vs_def]
  note ex = majority_exclusive[OF d(1), of i0 i1 i2] majority_exclusive[OF d(2), of i0 i1 i2]
    majority_exclusive[OF d(3), of i0 i1 i2]
  have dist: "distinct (mouthVertexIndices vs)" "distinct (leftEyeVertexIndices vs)"
    "distinct (rightEyeVertexIndices vs)"
    by (simp_all add: vs_def classifyVertices_filter)
  have tg: "(triangle_group vs i0 i1 i2 = GROUP_MOUTH) =
              has_majority (mouthVertexIndices vs) i0 i1 i2"
    "(triangle_group vs i0 i1 i2 = GROUP_LEFT_EYE) =
       has_majority (leftEyeVertexIndices vs) i0 i1 i2"
    "(triangle_group vs i0 i1 i2 = GROUP_RIGHT_EYE) =
       has_majority (rightEyeVertexIndices vs) i0 i1 i2"
    using ex by (auto simp: triangle_group_majority)
  show ?thesis
    unfolding Let_def vs_def[symmetric]
    using d ex dist tg by (simp add: region_count_majority)
qed

theorem vertex_regions_exclusive_witness:
  "classifyVertices
     [(Fin 0, Fin (- (1 / 4)), Fin (1 / 4)), (Fin (1 / 8), Fin (1 / 8), Fin (1 / 4)),
      (Fin (- (1 / 8)), Fin (1 / 8), Fin (1 / 4)), (Fin 0, Fin (1 / 2), Fin 0)]
     [(Fin (7 / 16), Fin (1 / 16)), (Fin (7 / 16), Fin (1 / 16)), (Fin (9 / 16), Fin (1 / 16))] =
     \<lparr>mouthVertexIndices = [0], leftEyeVertexIndices = [1], rightEyeVertexIndices = [2]\<rparr> \<and>
   set [0 :: nat] \<inter> set [1] = {} \<and>
   triangle_group (classifyVertices
     [(Fin 0, Fin (- (1 / 4)), Fin (1 / 4)), (Fin (1 / 8), Fin (1 / 8), Fin (1 / 4)),
      (Fin (- (1 / 8)), Fin (1 / 8), Fin (1 / 4)), (Fin 0, Fin (1 / 2), Fin 0)]
     [(Fin (7 / 16), Fin (1 / 16)), (Fin (7 / 16), Fin (1 / 16)), (Fin (9 / 16), Fin (1 / 16))])
     (Some 1) (Some 1) (Some 0) = GROUP_LEFT_EYE"
proof -
  have ev: "classifyVertices
     [(Fin 0, Fin (- (1 / 4)), Fin (1 / 4)), (Fin (1 / 8), Fin (1 / 8), Fin (1 / 4)),
      (Fin (- (1 / 8)), Fin (1 / 8), Fin (1 / 4)), (Fin 0, Fin (1 / 2), Fin 0)]
     [(Fin (7 / 16), Fin (1 / 16)), (Fin (7 / 16), Fin (1 / 16)), (Fin (9 / 16), Fin (1 / 16))] =
     \<lparr>mouthVertexIndices = [0], leftEyeVertexIndices = [1], rightEyeVertexIndices = [2]\<rparr>"
    by (simp add: classifyVertices_def upt_rec classify_step_def uv_get_def region_examples)
  have rc: "2 \<le> region_count [1] (Some 1) (Some 1) (Some 0)"
    by (simp add: region_count_def array_includes_def)
  from vertex_regions_exclusive[of
     "[(Fin 0, Fin (- (1 / 4)), Fin (1 / 4)), (Fin (1 / 8), Fin (1 / 8), Fin (1 / 4)),
      (Fin (- (1 / 8)), Fin (1 / 8), Fin (1 / 4)), (Fin 0, Fin (1 / 2), Fin 0)]"
     "[(Fin (7 / 16), Fin (1 / 16)), (Fin (7 / 16), Fin (1 / 16)), (Fin (9 / 16), Fin (1 / 16))]"
     "Some 1" "Some 1" "Some 0", unfolded Let_def ev] rc
  show ?thesis
    unfolding ev by simp
qed

section \<open>Properties of the exporter plugin\<close>

lemma nodeNameToIndex_snoc:
  "nodeNameToIndex_of (ns @ [x]) =
     (case node_name x of
        None \<Rightarrow> nodeNameToIndex_of ns
      | Some n \<Rightarrow> if n \<noteq> [] then (nodeNameToIndex_of ns)(n \<mapsto> length ns) else nodeNameToIndex_of ns)"
proof -
  have "zip (ns @ [x]) [0..<length (ns @ [x])] = zip ns [0..<length ns] @ [(x, length ns)]"
    by simp
  then show ?thesis
    by (simp add: nodeNameToIndex_of_def split: option.splits)
qed

lemma nodeNameToIndex_Some:
  "nodeNameToIndex_of ns b = Some i \<Longrightarrow>
     i < length ns \<and> node_name (ns ! i) = Some b \<and> b \<noteq> [] \<and>
     (\<forall>j. i < j \<and> j < length ns \<longrightarrow> node_name (ns ! j) \<noteq> Some b)"
proof (induction ns arbitrary: i rule: rev_induct)
  case Nil
  then show ?case by (simp add: nodeNameToIndex_of_def)
next
  case (snoc x ns)
  show ?case
  proof (cases "node_name x = Some b \<and> b \<noteq> []")
    case True
    with snoc.prems have "i = length ns"
      by (simp add: nodeNameToIndex_snoc)
    with True show ?thesis by auto
  next
    case False
    with snoc.prems have "nodeNameToIndex_of ns b = Some i"
      by (auto simp: nodeNameToIndex_snoc split: option.splits if_splits)
    from snoc.IH[OF this] False show ?thesis
      by (auto simp: nth_append less_Suc_eq)
  qed
qed

lemma nodeNameToIndex_None:
  "(nodeNameToIndex_of ns b = None) = (\<not> names_in ns b)"
proof (induction ns rule: rev_induct)
  case Nil
  then show ?case by (simp add: nodeNameToIndex_of_def names_in_def)
next
  case (snoc x ns)
  then show ?case
    by (auto simp: nodeNameToIndex_snoc names_in_def split: option.splits)
qed

lemma obj_set_fresh:
  "k \<notin> fst ` set kvs \<Longrightarrow> obj_set kvs k v = kvs @ [(k, v)]"
  by (induction kvs) auto

lemma fold_humanBones_step:
  assumes "distinct bs" "fst ` set hb \<inter> set bs = {}"
  shows "fold (humanBones_step m) bs (hb, w) =
           (hb @ map (\<lambda>b. (b, the (m b))) (filter (\<lambda>b. m b \<noteq> None) bs),
            w @ map bone_warning (filter (\<lambda>b. m b = None) bs))"
  using assms
proof (induction bs arbitrary: hb w)
  case Nil
  then show ?case by simp
next
  case (Cons b bs)
  show ?case
  proof (cases "m b")
    case None
    then have "fold (humanBones_step m) (b # bs) (hb, w) =
                 fold (humanBones_step m) bs (hb, w @ [bone_warning b])"
      by (simp add: humanBones_step_def)
    also have "\<dots> = (hb @ map (\<lambda>b. (b, the (m b))) (filter (\<lambda>b. m b \<noteq> None) bs),
            (w @ [bone_warning b]) @ map bone_warning (filter (\<lambda>b. m b = None) bs))"
      using Cons.prems by (intro Cons.IH) auto
    finally show ?thesis using None by simp
  next
    case (Some i)
    have fresh: "b \<notin> fst ` set hb" using Cons.prems by auto
    have "fold (humanBones_step m) (b # bs) (hb, w) =
                 fold (humanBones_step m) bs (hb @ [(b, i)], w)"
      using Some by (simp add: humanBones_step_def obj_set_fresh[OF fresh])
    also have "\<dots> = ((hb @ [(b, i)]) @ map (\<lambda>b. (b, the (m b))) (filter (\<lambda>b. m b \<noteq> None) bs),
            w @ map bone_warning (filter (\<lambda>b. m b = None) bs))"
      using Cons.prems by (intro Cons.IH) auto
    finally show ?thesis using Some by simp
  qed
qed

lemma distinct_boneNames: "distinct boneNames"
  by (simp add: boneNames_def)

lemma length_boneNames: "length boneNames = 20"
  by (simp add: boneNames_def)

lemma humanBones_loop_eq:
  "humanBones_loop m w =
     (map (\<lambda>b. (b, the (m b))) (filter (\<lambda>b. m b \<noteq> None) boneNames),
      w @ map bone_warning (filter (\<lambda>b. m b = None) boneNames))"
  unfolding humanBones_loop_def
  using fold_humanBones_step[OF distinct_boneNames, of "[]" m w] by simp

lemma afterParse_Inr:
  assumes "nodes (json st) = Some ns"
  shows "afterParse st =
     Inr (st\<lparr>parser_extensionsUsed := (parser_extensionsUsed st)(''VRMC_vrm'' \<mapsto> True),
            json := (json st)\<lparr>
              extensionsUsed :=
                Some ((case extensionsUsed (json st) of None \<Rightarrow> [] | Some l \<Rightarrow> l) @ [''VRMC_vrm'']),
              extensions_VRMC_vrm :=
                Some \<lparr>specVersion = ''1.0'', meta = vrm_meta_of_program,
                      humanBones = fst (humanBones_loop (nodeNameToIndex_of ns) (console_warn st)),
                      preset = presets (materialToIndex st)\<rparr>\<rparr>,
            console_warn := snd (humanBones_loop (nodeNameToIndex_of ns) (console_warn st))\<rparr>)"
  using assms by (simp add: afterParse_def Let_def split: prod.splits)

lemma fold_writeNode_json: "json (fold writeNode objs st) = json st"
  by (induction objs arbitrary: st) (simp_all add: writeNode_def Let_def)

lemma fold_writeNode_warn: "console_warn (fold writeNode objs st) = console_warn st"
  by (induction objs arbitrary: st) (simp_all add: writeNode_def Let_def)

lemma fold_writeNode_m2i: "materialToIndex (fold writeNode objs st) = materialToIndex st"
  "materialCount (fold writeNode objs st) = materialCount st"
  by (induction objs arbitrary: st) (simp_all add: writeNode_def Let_def)

lemma fold_writeMaterialAsync_json: "json (fold writeMaterialAsync ms st) = json st"
  by (induction ms arbitrary: st) (simp_all add: writeMaterialAsync_def)

lemma fold_writeMaterialAsync_warn: "console_warn (fold writeMaterialAsync ms st) = console_warn st"
  by (induction ms arbitrary: st) (simp_all add: writeMaterialAsync_def)

lemma program_export_nodes:
  "nodes (json program_export) = Some (gltf_nodes_of program_model)"
  by (simp add: program_export_def fold_writeMaterialAsync_json export_nodes_def Let_def
      gltf_nodes_of_def)

lemma program_node_names:
  "node_names program_model =
     [''body'', ''head'', ''head'', ''leftArm'', ''leftHand'', ''leftHand'', ''leftArm'',
      ''rightArm'', ''rightHand'', ''rightHand'', ''rightArm'',
      ''leftLeg'', ''leftFoot'', ''leftFoot'', ''leftLeg'',
      ''rightLeg'', ''rightFoot'', ''rightFoot'', ''rightLeg'',
      ''head'', ''neck'',
      ''leftHand'', ''leftLowerArm'', ''leftUpperArm'', ''leftShoulder'',
      ''rightHand'', ''rightLowerArm'', ''rightUpperArm'', ''rightShoulder'',
      ''upperChest'', ''chest'', ''spine'',
      ''leftFoot'', ''leftLowerLeg'', ''leftUpperLeg'',
      ''rightFoot'', ''rightLowerLeg'', ''rightUpperLeg'',
      ''hips'', ''body'']"
  by (simp add: program_model_def program_parts_def leaf_part_def node_names_def add_def
      enableBone_def Let_def program_hipsBone_def arm_bones_def leg_bones_def bone_obj_def)

text \<open>
  Claim C5. On a document with a node array, \<open>afterParse\<close> throws nothing. The keys of
  \<open>humanBones\<close> are the canonical names found in the node list, in canonical order; the
  value of a key is the index of a node with that name (the last one); and one warning
  is logged, in order, for each canonical name that is absent, so that entries and new
  warnings together number twenty. When all twenty names are present there are exactly
  twenty entries and no warning.
\<close>

theorem humanBones_complete:
  assumes "nodes (json st) = Some ns"
  shows "\<exists>st' ext. afterParse st = Inr st' \<and> extensions_VRMC_vrm (json st') = Some ext \<and>
           map fst (humanBones ext) = filter (names_in ns) boneNames \<and>
           (\<forall>b i. (b, i) \<in> set (humanBones ext) \<longrightarrow>
              i < length ns \<and> node_name (ns ! i) = Some b \<and>
              (\<forall>j. i < j \<and> j < length ns \<longrightarrow> node_name (ns ! j) \<noteq> Some b)) \<and>
           console_warn st' =
             console_warn st @ map bone_warning (filter (\<lambda>b. \<not> names_in ns b) boneNames) \<and>
           length (humanBones ext) +
             length (filter (\<lambda>b. \<not> names_in ns b) boneNames) = 20 \<and>
           ((\<forall>b \<in> set boneNames. names_in ns b) \<longrightarrow>
              length (humanBones ext) = 20 \<and> map fst (humanBones ext) = boneNames \<and>
              console_warn st' = console_warn st)"
proof -
  define m where "m = nodeNameToIndex_of ns"
  define hb where "hb = map (\<lambda>b. (b, the (m b))) (filter (\<lambda>b. m b \<noteq> None) boneNames)"
  define ws where "ws = console_warn st @ map bone_warning (filter (\<lambda>b. m b = None) boneNames)"
  define ext where
    "ext = \<lparr>specVersion = ''1.0'', meta = vrm_meta_of_program, humanBones = hb,
             preset = presets (materialToIndex st)\<rparr>"
  define st' where
    "st' = st\<lparr>parser_extensionsUsed := (parser_extensionsUsed st)(''VRMC_vrm'' \<mapsto> True),
            json := (json st)\<lparr>
              extensionsUsed :=
                Some ((case extensionsUsed (json st) of None \<Rightarrow> [] | Some l \<Rightarrow> l) @ [''VRMC_vrm'']),
              extensions_VRMC_vrm := Some ext\<rparr>,
            console_warn := ws\<rparr>"
  have run: "afterParse st = Inr st'"
    by (simp add: afterParse_Inr[OF assms] humanBones_loop_eq st'_def ext_def hb_def ws_def m_def)
  have ex: "extensions_VRMC_vrm (json st') = Some ext"
    by (simp add: st'_def)
  have present: "(m b \<noteq> None) = names_in ns b" for b
    using nodeNameToIndex_None[of ns b] by (simp add: m_def)
  have f1: "filter (\<lambda>b. m b \<noteq> None) boneNames = filter (names_in ns) boneNames"
    using present by (intro filter_cong) auto
  have absent: "(m b = None) = (\<not> names_in ns b)" for b
    using nodeNameToIndex_None[of ns b] by (simp add: m_def)
  have f2: "filter (\<lambda>b. m b = None) boneNames = filter (\<lambda>b. \<not> names_in ns b) boneNames"
    by (simp add: absent)
  have keys: "map fst (humanBones ext) = filter (names_in ns) boneNames"
    unfolding ext_def hb_def f1 by (simp add: comp_def)
  have vals: "i < length ns \<and> node_name (ns ! i) = Some b \<and>
      (\<forall>j. i < j \<and> j < length ns \<longrightarrow> node_name (ns ! j) \<noteq> Some b)"
    if "(b, i) \<in> set (humanBones ext)" for b i
  proof -
    from that have "m b \<noteq> None" "i = the (m b)"
      by (auto simp: ext_def hb_def)
    then have "nodeNameToIndex_of ns b = Some i"
      by (auto simp: m_def)
    from nodeNameToIndex_Some[OF this] show ?thesis by blast
  qed
  have warns: "console_warn st' =
      console_warn st @ map bone_warning (filter (\<lambda>b. \<not> names_in ns b) boneNames)"
    unfolding st'_def ws_def f2 by simp
  have full: "length (humanBones ext) = 20 \<and> map fst (humanBones ext) = boneNames \<and>
      console_warn st' = console_warn st"
    if "\<forall>b \<in> set boneNames. names_in ns b"
  proof -
    from that have all: "filter (names_in ns) boneNames = boneNames"
      by (simp add: filter_id_conv)
    from that have none: "filter (\<lambda>b. \<not> names_in ns b) boneNames = []"
      by (simp add: filter_empty_conv)
    have "length (humanBones ext) = length (map fst (humanBones ext))" by simp
    also have "\<dots> = 20" by (simp only: keys all length_boneNames)
    finally show ?thesis using keys all warns none by simp
  qed
  have "length (humanBones ext) = length (filter (names_in ns) boneNames)"
    using arg_cong[OF keys, of length] by simp
  then have total: "length (humanBones ext) +
      length (filter (\<lambda>b. \<not> names_in ns b) boneNames) = 20"
    using sum_length_filter_compl[of "names_in ns" boneNames] by (simp add: length_boneNames)
  from run ex keys vals warns total full show ?thesis by blast
qed

theorem humanBones_complete_witness:
  "nodes (json program_export) = Some (gltf_nodes_of program_model) \<and>
   list_all (names_in (gltf_nodes_of program_model)) boneNames \<and>
   (\<exists>st' ext. afterParse program_export = Inr st' \<and>
      extensions_VRMC_vrm (json st') = Some ext \<and>
      length (humanBones ext) = 20 \<and> map fst (humanBones ext) = boneNames \<and>
      console_warn st' = [])"
proof -
  have "map node_name (gltf_nodes_of program_model) =
          map (\<lambda>n. if n \<noteq> [] then Some n else None) (node_names program_model)"
    by (simp add: gltf_nodes_of_def node_names_def comp_def)
  then have "node_name ` set (gltf_nodes_of program_model) =
          set (map (\<lambda>n. if n \<noteq> [] then Some n else None) (node_names program_model))"
    by (metis set_map)
  then have h2: "\<forall>b \<in> set boneNames. names_in (gltf_nodes_of program_model) b"
    by (simp add: names_in_def boneNames_def program_node_names)
  have w: "console_warn program_export = []"
    by (simp add: program_export_def fold_writeMaterialAsync_warn export_nodes_def Let_def
        fold_writeNode_warn initial_exporter_def)
  from humanBones_complete[OF program_export_nodes] h2 w program_export_nodes
  show ?thesis by (auto simp: list_all_iff)
qed

text \<open>
  Claim C6, as the code has it. Each run of \<open>afterParse\<close> pushes the identifier on the
  document's \<open>extensionsUsed\<close> array unconditionally: one run adds one occurrence, two
  runs add two. Only the flag in \<open>parser.extensionsUsed\<close> is set idempotently.
\<close>

theorem extensionsUsed_appended:
  assumes "nodes (json st) = Some ns"
  shows "\<exists>st1 st2. afterParse st = Inr st1 \<and> afterParse_twice st = Inr st2 \<and>
           extensionsUsed (json st1) = Some (used_list st @ [''VRMC_vrm'']) \<and>
           extensionsUsed (json st2) = Some (used_list st @ [''VRMC_vrm'', ''VRMC_vrm'']) \<and>
           count_list (used_list st1) ''VRMC_vrm'' = count_list (used_list st) ''VRMC_vrm'' + 1 \<and>
           count_list (used_list st2) ''VRMC_vrm'' = count_list (used_list st) ''VRMC_vrm'' + 2 \<and>
           parser_extensionsUsed st1 = (parser_extensionsUsed st)(''VRMC_vrm'' \<mapsto> True) \<and>
           parser_extensionsUsed st2 = parser_extensionsUsed st1"
proof -
  obtain st1 where st1: "afterParse st = Inr st1"
    and u1: "extensionsUsed (json st1) = Some (used_list st @ [''VRMC_vrm''])"
    and p1: "parser_extensionsUsed st1 = (parser_extensionsUsed st)(''VRMC_vrm'' \<mapsto> True)"
    and n1: "nodes (json st1) = Some ns"
    using assms by (simp add: afterParse_Inr[OF assms] used_list_def)
  obtain st2 where st2: "afterParse st1 = Inr st2"
    and u2: "extensionsUsed (json st2) = Some (used_list st1 @ [''VRMC_vrm''])"
    and p2: "parser_extensionsUsed st2 = (parser_extensionsUsed st1)(''VRMC_vrm'' \<mapsto> True)"
    by (simp add: afterParse_Inr[OF n1] used_list_def)
  have l1: "used_list st1 = used_list st @ [''VRMC_vrm'']"
    using u1 by (simp add: used_list_def)
  have l2: "used_list st2 = used_list st @ [''VRMC_vrm'', ''VRMC_vrm'']"
    using u2 l1 by (simp add: used_list_def)
  have tw: "afterParse_twice st = Inr st2"
    by (simp add: afterParse_twice_def st1 st2)
  have "parser_extensionsUsed st2 = parser_extensionsUsed st1"
    using p1 p2 by simp
  with st1 tw u1 u2 l1 l2 p1 show ?thesis
    by (intro exI[of _ st1] exI[of _ st2]) simp
qed

theorem extensionsUsed_appended_witness:
  "nodes (json program_export) = Some (gltf_nodes_of program_model) \<and>
   (\<exists>st1 st2. afterParse program_export = Inr st1 \<and> afterParse_twice program_export = Inr st2 \<and>
      extensionsUsed (json st1) = Some [''VRMC_vrm''] \<and>
      extensionsUsed (json st2) = Some [''VRMC_vrm'', ''VRMC_vrm''])"
proof -
  have "used_list program_export = []"
    by (simp add: used_list_def program_export_def fold_writeMaterialAsync_json export_nodes_def
        Let_def fold_writeNode_json initial_exporter_def)
  with extensionsUsed_appended[OF program_export_nodes] program_export_nodes
  show ?thesis by auto
qed

text \<open>
  The claim as the specification states it fails: after two runs on the program's
  export the array holds the identifier twice.
\<close>

theorem extensionsUsed_duplicated_counterexample:
  "map_sum id (\<lambda>st. extensionsUsed (json st)) (afterParse_twice program_export) =
     Inr (Some [''VRMC_vrm'', ''VRMC_vrm''])"
proof -
  have n0: "nodes (json program_export) = Some (gltf_nodes_of program_model)"
    by (rule program_export_nodes)
  have u0: "extensionsUsed (json program_export) = None"
    by (simp add: program_export_def fold_writeMaterialAsync_json export_nodes_def
        Let_def fold_writeNode_json initial_exporter_def)
  show ?thesis
    unfolding afterParse_twice_def afterParse_Inr[OF n0]
    by (simp add: afterParse_Inr n0 u0)
qed

text \<open>
  Claim C8, as the code has it. \<open>afterParse\<close> never checks the material lookups: on a
  document with a node array it throws nothing and writes the extension, and the
  material of every binding is whatever \<open>materialToIndex.get\<close> returned, \<open>undefined\<close>
  (\<open>None\<close>) when the material was never written.
\<close>

theorem missing_material_not_checked:
  assumes "nodes (json st) = Some ns"
  shows "\<exists>st' ext. afterParse st = Inr st' \<and> extensions_VRMC_vrm (json st') = Some ext \<and>
           preset ext = presets (materialToIndex st) \<and>
           bind_materials ext =
             [(''aa'', [materialToIndex st ''headMouthMaterial'']),
              (''ih'', [materialToIndex st ''headMouthMaterial'']),
              (''ou'', [materialToIndex st ''headMouthMaterial'']),
              (''ee'', [materialToIndex st ''headMouthMaterial'']),
              (''oh'', [materialToIndex st ''headMouthMaterial'']),
              (''blink'', [materialToIndex st ''headLeftEyeMaterial'',
                           materialToIndex st ''headRightEyeMaterial'']),
              (''blinkLeft'', [materialToIndex st ''headLeftEyeMaterial'']),
              (''blinkRight'', [materialToIndex st ''headRightEyeMaterial''])] \<and>
           (materialToIndex st ''headMouthMaterial'' = None \<longrightarrow>
              map (\<lambda>e. map material (textureTransformBinds e)) (map snd (take 5 (preset ext))) =
                [[None], [None], [None], [None], [None]])"
  by (simp add: afterParse_Inr[OF assms] bind_materials_def presets_def binary_expression_def
      bind_def head_mouthMaterial_name_def head_leftEyeMaterial_name_def
      head_rightEyeMaterial_name_def)

theorem missing_material_not_checked_witness:
  "nodes (json export_without_mouth_material) = Some (gltf_nodes_of program_model) \<and>
   materialToIndex export_without_mouth_material ''headMouthMaterial'' = None \<and>
   (\<exists>st' ext. afterParse export_without_mouth_material = Inr st' \<and>
      extensions_VRMC_vrm (json st') = Some ext \<and>
      map (\<lambda>e. map material (textureTransformBinds e)) (map snd (take 5 (preset ext))) =
        [[None], [None], [None], [None], [None]])"
proof -
  have n0: "nodes (json export_without_mouth_material) = Some (gltf_nodes_of program_model)"
    unfolding export_without_mouth_material_def fold_writeMaterialAsync_json
    by (simp add: export_nodes_def Let_def gltf_nodes_of_def)
  have m0: "materialToIndex export_without_mouth_material ''headMouthMaterial'' = None"
    by (simp_all add: export_without_mouth_material_def writeMaterialAsync_def export_nodes_def
        Let_def fold_writeNode_m2i initial_exporter_def)
  from missing_material_not_checked[OF n0] obtain st' ext where
    "afterParse export_without_mouth_material = Inr st'"
    "extensions_VRMC_vrm (json st') = Some ext"
    "materialToIndex export_without_mouth_material ''headMouthMaterial'' = None \<longrightarrow>
       map (\<lambda>e. map material (textureTransformBinds e)) (map snd (take 5 (preset ext))) =
         [[None], [None], [None], [None], [None]]"
    by (elim exE conjE)
  with m0 n0 show ?thesis
    by (intro conjI exI[of _ st'] exI[of _ ext]) simp_all
qed

text \<open>
  The claim as the specification states it fails: on an export without the mouth
  material the hook returns normally and the five mouth presets are bound to an
  undefined material.
\<close>

theorem missing_material_counterexample:
  "map_sum id (\<lambda>st. map_option bind_materials (extensions_VRMC_vrm (json st)))
     (afterParse export_without_mouth_material) =
   Inr (Some [(''aa'', [None]), (''ih'', [None]), (''ou'', [None]), (''ee'', [None]),
              (''oh'', [None]), (''blink'', [Some 2, Some 3]), (''blinkLeft'', [Some 2]),
              (''blinkRight'', [Some 3])])"
proof -
  have n0: "nodes (json export_without_mouth_material) = Some (gltf_nodes_of program_model)"
    unfolding export_without_mouth_material_def fold_writeMaterialAsync_json
    by (simp add: export_nodes_def Let_def gltf_nodes_of_def)
  have m0: "materialToIndex export_without_mouth_material ''headMouthMaterial'' = None"
    "materialToIndex export_without_mouth_material ''headLeftEyeMaterial'' = Some 2"
    "materialToIndex export_without_mouth_material ''headRightEyeMaterial'' = Some 3"
    by (simp_all add: export_without_mouth_material_def writeMaterialAsync_def export_nodes_def
        Let_def fold_writeNode_m2i initial_exporter_def)
  show ?thesis
    by (simp add: afterParse_Inr[OF n0] bind_materials_def presets_def binary_expression_def
      bind_def head_mouthMaterial_name_def head_leftEyeMaterial_name_def
      head_rightEyeMaterial_name_def m0)
qed

end
